theory Spec2Isabelle
  imports Complex_Main "HOL-Library.Word" "HOL-Library.AList"
begin

unbundle bit_operations_syntax

section \<open>The USB layer as seen from sispm.py\<close>

text \<open>
  \<^verbatim>\<open>sispm.py\<close> talks to the hardware through three calls of the pyusb library:
  \<^verbatim>\<open>device.ctrl_transfer\<close>, \<^verbatim>\<open>device.set_configuration\<close> and
  \<^verbatim>\<open>usb.util.dispose_resources\<close>, and it calls \<^verbatim>\<open>time.sleep\<close>. None of them is
  code of the repository. They are parameters of the model: a record of functions over an
  arbitrary hardware state \<open>'h\<close>. Each of them either returns or raises \<^verbatim>\<open>USBError\<close>,
  the one transport error of the library (\<open>None\<close>, respectively \<open>False\<close>).
  Every call is appended to a log, in the order in which the program makes it.
\<close>

type_synonym byte = "8 word"

record request =
  bmRequestType :: int
  bRequest :: int
  wValue :: int
  wIndex :: int
  data_or_wLength :: "byte list"
  timeout :: int

text \<open>
  What \<^verbatim>\<open>ctrl_transfer\<close> returns: the bytes read (a device-to-host request) or the
  number of bytes written (a host-to-device request).
\<close>

datatype reply = Data "byte list" | Written int

datatype event =
    CtrlTransfer request "reply option"
  | Sleep nat
  | DisposeResources bool
  | SetConfiguration bool

record 'h pyusb =
  ctrl_transfer :: "request \<Rightarrow> 'h \<Rightarrow> reply option \<times> 'h"
  dispose_resources :: "'h \<Rightarrow> bool \<times> 'h"
  set_configuration :: "'h \<Rightarrow> bool \<times> 'h"

record 'h world =
  hw :: 'h
  calls :: "event list"

section \<open>Python values and errors\<close>

text \<open>
  The public operations take any Python object as outlet argument. The model has the
  integers, the booleans, the finite floats (each with the rational number it denotes) and
  the strings. Python compares numbers of these three numeric types by value.
\<close>

datatype pyval = PInt int | PBool bool | PFloat rat | PStr string

datatype error =
    USBError
  | OutletException pyval
  | KeyError int
  | TypeError
  | ValueError
  | IndexError

type_synonym ('h, 'a) action = "'h world \<Rightarrow> (error + 'a) \<times> 'h world"

definition ret :: "'a \<Rightarrow> ('h, 'a) action" where
  "ret x w = (Inr x, w)"

definition raise :: "error \<Rightarrow> ('h, 'a) action" where
  "raise e w = (Inl e, w)"

definition bind :: "('h, 'a) action \<Rightarrow> ('a \<Rightarrow> ('h, 'b) action) \<Rightarrow> ('h, 'b) action" where
  "bind m f w = (case m w of (Inl e, w1) \<Rightarrow> (Inl e, w1) | (Inr x, w1) \<Rightarrow> f x w1)"

definition lift :: "error + 'a \<Rightarrow> ('h, 'a) action" where
  "lift r w = (r, w)"

section \<open>Constants\<close>

definition VENDOR :: int where "VENDOR = 0x04B4"
definition MSISPM_OLD :: int where "MSISPM_OLD = 0xFD10"
definition SISPM :: int where "SISPM = 0xFD11"
definition MSISPM_FLASH :: int where "MSISPM_FLASH = 0xFD12"
definition MSISPM_FLASH_NEW :: int where "MSISPM_FLASH_NEW = 0xFD13"

definition DEVICE_TYPES :: "int \<Rightarrow> (int list \<times> string) option" where
  "DEVICE_TYPES p =
     (if p = MSISPM_OLD then Some ([1], ''1-socket mSiS-PM'')
      else if p = SISPM then Some ([1, 2, 3, 4], ''4-socket SiS-PM'')
      else if p = MSISPM_FLASH then Some ([1], ''1-socket mSiS-PM'')
      else if p = MSISPM_FLASH_NEW then Some ([1, 2, 3, 4], ''4-socket SiS-PM'')
      else None)"

definition TRIES :: nat where "TRIES = 5"

section \<open>Calls of the USB layer\<close>

definition call_ctrl_transfer :: "'h pyusb \<Rightarrow> request \<Rightarrow> 'h world \<Rightarrow> reply option \<times> 'h world" where
  "call_ctrl_transfer usb rq w =
     (case ctrl_transfer usb rq (hw w) of
        (r, h) \<Rightarrow> (r, \<lparr>hw = h, calls = calls w @ [CtrlTransfer rq r]\<rparr>))"

text \<open>\<^verbatim>\<open>sleep(.05)\<close>: the log has the delay in milliseconds.\<close>

definition call_sleep :: "'h world \<Rightarrow> 'h world" where
  "call_sleep w = \<lparr>hw = hw w, calls = calls w @ [Sleep 50]\<rparr>"

definition call_dispose_resources :: "'h pyusb \<Rightarrow> 'h world \<Rightarrow> bool \<times> 'h world" where
  "call_dispose_resources usb w =
     (case dispose_resources usb (hw w) of
        (ok, h) \<Rightarrow> (ok, \<lparr>hw = h, calls = calls w @ [DisposeResources ok]\<rparr>))"

definition call_set_configuration :: "'h pyusb \<Rightarrow> 'h world \<Rightarrow> bool \<times> 'h world" where
  "call_set_configuration usb w =
     (case set_configuration usb (hw w) of
        (ok, h) \<Rightarrow> (ok, \<lparr>hw = h, calls = calls w @ [SetConfiguration ok]\<rparr>))"

section \<open>The retrying executor\<close>

text \<open>
  A leading underscore of a Python name is written \<open>u_\<close>.
  \<^verbatim>\<open>_usb_command\<close>: the loop variable \<open>i\<close> runs over \<^verbatim>\<open>range(TRIES-1, -1, -1)\<close>. An
  attempt that returns ends the loop; an attempt that raises \<^verbatim>\<open>USBError\<close> re-raises when
  \<open>i\<close> is 0 and sleeps otherwise.
\<close>

primrec u_usb_command_from :: "'h pyusb \<Rightarrow> request \<Rightarrow> nat \<Rightarrow> ('h, reply) action" where
  "u_usb_command_from usb rq 0 w =
     (case call_ctrl_transfer usb rq w of
        (Some r, w1) \<Rightarrow> (Inr r, w1)
      | (None, w1) \<Rightarrow> (Inl USBError, w1))"
| "u_usb_command_from usb rq (Suc i) w =
     (case call_ctrl_transfer usb rq w of
        (Some r, w1) \<Rightarrow> (Inr r, w1)
      | (None, w1) \<Rightarrow> u_usb_command_from usb rq i (call_sleep w1))"

definition u_usb_command :: "'h pyusb \<Rightarrow> request \<Rightarrow> ('h, reply) action" where
  "u_usb_command usb rq = u_usb_command_from usb rq (TRIES - 1)"

section \<open>Python operations used by the codec\<close>

definition bytearray :: "nat \<Rightarrow> byte list" where
  "bytearray n = replicate n 0"

text \<open>\<^verbatim>\<open>num * k\<close> for an integer \<open>k\<close>: a bool counts as 0 or 1 and the product is an int; a
  float gives a float (the rounding of the product plays no role below); a string is
  repeated.\<close>

definition py_mul :: "pyval \<Rightarrow> nat \<Rightarrow> pyval" where
  "py_mul v k =
     (case v of
        PInt i \<Rightarrow> PInt (i * int k)
      | PBool b \<Rightarrow> PInt (if b then int k else 0)
      | PFloat r \<Rightarrow> PFloat (r * of_nat k)
      | PStr s \<Rightarrow> PStr (concat (replicate k s)))"

text \<open>\<^verbatim>\<open>bytes[k] = v\<close> on a bytearray: the value must be an integer in 0..255.\<close>

definition setitem :: "byte list \<Rightarrow> nat \<Rightarrow> pyval \<Rightarrow> error + byte list" where
  "setitem bs k v =
     (if length bs \<le> k then Inl IndexError
      else case v of
        PInt i \<Rightarrow> if 0 \<le> i \<and> i < 256 then Inr (bs[k := word_of_int i]) else Inl ValueError
      | PBool b \<Rightarrow> Inr (bs[k := (if b then 1 else 0)])
      | PFloat r \<Rightarrow> Inl TypeError
      | PStr s \<Rightarrow> Inl TypeError)"

text \<open>\<^verbatim>\<open>a | v\<close> for an int \<open>a\<close>.\<close>

definition py_or :: "int \<Rightarrow> pyval \<Rightarrow> error + int" where
  "py_or a v =
     (case v of
        PInt i \<Rightarrow> Inr (a OR i)
      | PBool b \<Rightarrow> Inr (a OR (if b then 1 else 0))
      | PFloat r \<Rightarrow> Inl TypeError
      | PStr s \<Rightarrow> Inl TypeError)"

text \<open>\<^verbatim>\<open>r[k]\<close> on the value returned by a transfer.\<close>

definition getitem :: "reply \<Rightarrow> nat \<Rightarrow> error + byte" where
  "getitem r k =
     (case r of
        Data bs \<Rightarrow> if k < length bs then Inr (bs ! k) else Inl IndexError
      | Written n \<Rightarrow> Inl TypeError)"

text \<open>Equality of Python values: numbers by value, strings by content.\<close>

definition py_num :: "pyval \<Rightarrow> rat option" where
  "py_num v =
     (case v of
        PInt i \<Rightarrow> Some (of_int i)
      | PBool b \<Rightarrow> Some (if b then 1 else 0)
      | PFloat r \<Rightarrow> Some r
      | PStr s \<Rightarrow> None)"

definition py_eq :: "pyval \<Rightarrow> pyval \<Rightarrow> bool" where
  "py_eq a b =
     (case (a, b) of
        (PStr s, PStr t) \<Rightarrow> s = t
      | _ \<Rightarrow> (case (py_num a, py_num b) of (Some x, Some y) \<Rightarrow> x = y | _ \<Rightarrow> False))"

text \<open>\<^verbatim>\<open>num in self.outlets\<close>: some element of the tuple is equal to \<open>num\<close>.\<close>

definition py_in :: "pyval \<Rightarrow> int list \<Rightarrow> bool" where
  "py_in v xs = list_ex (\<lambda>x. py_eq (PInt x) v) xs"

text \<open>\<^verbatim>\<open>hex\<close>, \<^verbatim>\<open>str.zfill\<close> and \<^verbatim>\<open>str.join\<close>.\<close>

definition hexdigit :: "nat \<Rightarrow> char" where
  "hexdigit d = ''0123456789abcdef'' ! d"

fun hex_digits :: "nat \<Rightarrow> string" where
  "hex_digits n = (if n < 16 then [hexdigit n] else hex_digits (n div 16) @ [hexdigit (n mod 16)])"

declare hex_digits.simps [simp del]

definition hex :: "int \<Rightarrow> string" where
  "hex i = (if i < 0 then ''-0x'' @ hex_digits (nat (- i)) else ''0x'' @ hex_digits (nat i))"

definition zfill :: "nat \<Rightarrow> string \<Rightarrow> string" where
  "zfill width s =
     (if width \<le> length s then s
      else case s of
        [] \<Rightarrow> replicate width CHR ''0''
      | c # cs \<Rightarrow>
          if c = CHR ''+'' \<or> c = CHR ''-''
          then c # replicate (width - length s) CHR ''0'' @ cs
          else replicate (width - length s) CHR ''0'' @ s)"

fun join :: "string \<Rightarrow> string list \<Rightarrow> string" where
  "join sep [] = []"
| "join sep [x] = x"
| "join sep (x # y # ys) = x @ sep @ join sep (y # ys)"

text \<open>\<^verbatim>\<open>dict(pairs)\<close>: a later pair with a key already present replaces the value and
  keeps the key's place.\<close>

definition dict :: "(int \<times> bool) list \<Rightarrow> (int \<times> bool) list" where
  "dict ps = foldl (\<lambda>d p. AList.update (fst p) (snd p) d) [] ps"

section \<open>The session\<close>

record Device =
  idVendor :: int
  idProduct :: int
  manufacturer :: string
  product :: string
  bus :: int
  address :: int

record OutletDevice =
  device :: Device
  autodispose :: bool

text \<open>
  The decorator \<^verbatim>\<open>autodispose\<close>: the wrapped function runs; in the \<^verbatim>\<open>finally\<close> clause
  the device is released when the flag is set, and a \<^verbatim>\<open>USBError\<close> of the release is
  passed over; the function's result or exception is what the wrapper gives.
\<close>

definition release :: "'h pyusb \<Rightarrow> OutletDevice \<Rightarrow> 'h world \<Rightarrow> 'h world" where
  "release usb self w = (if autodispose self then snd (call_dispose_resources usb w) else w)"

definition autodispose_dec :: "'h pyusb \<Rightarrow> OutletDevice \<Rightarrow> ('h, 'a) action \<Rightarrow> ('h, 'a) action" where
  "autodispose_dec usb self func w =
     (case func w of (result, w1) \<Rightarrow> (result, release usb self w1))"

text \<open>
  The same decorator over a release that may raise any exception, not only the transport
  error of the library: the release gives \<open>None\<close> when it returns and \<open>Some e\<close> when it
  raises \<open>e\<close>. The clause \<^verbatim>\<open>except USBError: pass\<close> passes over \<^verbatim>\<open>USBError\<close> alone; any
  other exception leaves the \<^verbatim>\<open>finally\<close> clause and takes the place of the function's
  result or exception. The log has \<open>True\<close> for a release that returned. With the release
  of the library, \<open>usb_release\<close>, this is \<open>autodispose_dec\<close>.
\<close>

type_synonym 'h releaser = "'h \<Rightarrow> error option \<times> 'h"

definition call_release :: "'h releaser \<Rightarrow> 'h world \<Rightarrow> error option \<times> 'h world" where
  "call_release rel w =
     (case rel (hw w) of
        (out, h) \<Rightarrow> (out, \<lparr>hw = h, calls = calls w @ [DisposeResources (out = None)]\<rparr>))"

definition autodispose_any :: "'h releaser \<Rightarrow> OutletDevice \<Rightarrow> ('h, 'a) action \<Rightarrow> ('h, 'a) action" where
  "autodispose_any rel self func w =
     (case func w of
        (result, w1) \<Rightarrow>
          if autodispose self then
            (case call_release rel w1 of
               (None, w2) \<Rightarrow> (result, w2)
             | (Some e, w2) \<Rightarrow> if e = USBError then (result, w2) else (Inl e, w2))
          else (result, w1))"

definition usb_release :: "'h pyusb \<Rightarrow> 'h releaser" where
  "usb_release usb h =
     (case dispose_resources usb h of (ok, h1) \<Rightarrow> (if ok then None else Some USBError, h1))"

text \<open>\<^verbatim>\<open>OutletDevice.__init__\<close>.\<close>

definition init_OutletDevice :: "'h pyusb \<Rightarrow> Device \<Rightarrow> ('h, OutletDevice) action" where
  "init_OutletDevice usb d w =
     (case call_set_configuration usb w of
        (True, w1) \<Rightarrow> (Inr \<lparr>device = d, autodispose = True\<rparr>, w1)
      | (False, w1) \<Rightarrow> (Inl USBError, w1))"

definition u_get_serial_body :: "'h pyusb \<Rightarrow> ('h, reply) action" where
  "u_get_serial_body usb =
     u_usb_command usb
       \<lparr>bmRequestType = 0xa1, bRequest = 0x01, wValue = push_bit 8 0x03 OR 1, wIndex = 0,
        data_or_wLength = bytearray 6, timeout = 500\<rparr>"

definition u_get_serial :: "'h pyusb \<Rightarrow> OutletDevice \<Rightarrow> ('h, reply) action" where
  "u_get_serial usb self = autodispose_dec usb self (u_get_serial_body usb)"

definition u_status :: "'h pyusb \<Rightarrow> pyval \<Rightarrow> ('h, bool) action" where
  "u_status usb num =
     bind (lift (setitem (bytearray 6) 0 (py_mul num 3))) (\<lambda>bytes.
     bind (lift (py_or (push_bit 8 0x03) (py_mul num 3))) (\<lambda>v.
     bind (u_usb_command usb
             \<lparr>bmRequestType = 0x21 OR 0x80, bRequest = 0x01, wValue = v, wIndex = 0,
              data_or_wLength = bytes, timeout = 500\<rparr>) (\<lambda>r.
     bind (lift (getitem r 1)) (\<lambda>b. ret (b \<noteq> 0)))))"

definition u_on :: "'h pyusb \<Rightarrow> pyval \<Rightarrow> ('h, bool) action" where
  "u_on usb num =
     bind (u_status usb num) (\<lambda>st.
       if st then ret True
       else
         bind (lift (setitem (bytearray 6) 0 (py_mul num 3))) (\<lambda>bytes0.
         bind (lift (setitem bytes0 1 (PInt 0x03))) (\<lambda>bytes.
         bind (lift (py_or (push_bit 8 0x03) (py_mul num 3))) (\<lambda>v.
         bind (u_usb_command usb
                 \<lparr>bmRequestType = 0x21, bRequest = 0x09, wValue = v, wIndex = 0,
                  data_or_wLength = bytes, timeout = 500\<rparr>) (\<lambda>r.
         u_status usb num)))))"

definition u_off :: "'h pyusb \<Rightarrow> pyval \<Rightarrow> ('h, bool) action" where
  "u_off usb num =
     bind (u_status usb num) (\<lambda>st.
       if \<not> st then ret True
       else
         bind (lift (setitem (bytearray 6) 0 (py_mul num 3))) (\<lambda>bytes.
         bind (lift (py_or (push_bit 8 0x03) (py_mul num 3))) (\<lambda>v.
         bind (u_usb_command usb
                 \<lparr>bmRequestType = 0x21, bRequest = 0x09, wValue = v, wIndex = 0,
                  data_or_wLength = bytes, timeout = 500\<rparr>) (\<lambda>r.
         bind (u_status usb num) (\<lambda>st2. ret (\<not> st2))))))"

text \<open>\<^verbatim>\<open>dispose\<close> is not decorated: a \<^verbatim>\<open>USBError\<close> of the release reaches the caller.\<close>

definition dispose :: "'h pyusb \<Rightarrow> ('h, unit) action" where
  "dispose usb w =
     (case call_dispose_resources usb w of
        (True, w1) \<Rightarrow> (Inr (), w1)
      | (False, w1) \<Rightarrow> (Inl USBError, w1))"

definition serial :: "'h pyusb \<Rightarrow> OutletDevice \<Rightarrow> ('h, string) action" where
  "serial usb self =
     bind (u_get_serial usb self) (\<lambda>r.
       case r of
         Data bs \<Rightarrow> ret (join '':'' (map (\<lambda>i. zfill 2 (drop 2 (hex (uint i)))) bs))
       | Written n \<Rightarrow> raise TypeError)"

definition outlets :: "OutletDevice \<Rightarrow> error + int list" where
  "outlets self =
     (case DEVICE_TYPES (idProduct (device self)) of
        None \<Rightarrow> Inl (KeyError (idProduct (device self)))
      | Some t \<Rightarrow> Inr (fst t))"

record info_dict =
  info_manufacturer :: string
  info_product :: string
  info_idVendor :: string
  info_idProduct :: string
  info_serial :: string
  info_devicetype :: string
  info_outlets :: "int list"
  info_bus :: int
  info_address :: int

text \<open>
  \<^verbatim>\<open>info\<close>: the entries of the dictionary display are evaluated from first to last, so
  the serial is read from the device before \<^verbatim>\<open>DEVICE_TYPES\<close> is indexed. The four
  attributes of the pyusb device are plain values here.
\<close>

definition info :: "'h pyusb \<Rightarrow> OutletDevice \<Rightarrow> ('h, info_dict) action" where
  "info usb self =
     bind (serial usb self) (\<lambda>s.
     bind (lift (case DEVICE_TYPES (idProduct (device self)) of
                   None \<Rightarrow> Inl (KeyError (idProduct (device self)))
                 | Some t \<Rightarrow> Inr (snd t))) (\<lambda>label.
     bind (lift (outlets self)) (\<lambda>outs.
     ret \<lparr>info_manufacturer = manufacturer (device self),
          info_product = product (device self),
          info_idVendor = ''0x'' @ zfill 4 (drop 2 (hex (idVendor (device self)))),
          info_idProduct = ''0x'' @ zfill 4 (drop 2 (hex (idProduct (device self)))),
          info_serial = s,
          info_devicetype = label,
          info_outlets = outs,
          info_bus = bus (device self),
          info_address = address (device self)\<rparr>)))"

text \<open>The results of the public operations: a truth value for one outlet, a dictionary
  for \<^verbatim>\<open>'all'\<close>.\<close>

datatype result = Scalar bool | Dict "(int \<times> bool) list"

text \<open>The generator \<^verbatim>\<open>((i, f(i)) for i in self.outlets)\<close>, consumed by \<^verbatim>\<open>dict\<close>: the
  outlets are visited from first to last and an exception ends the visit.\<close>

primrec dict_items :: "(int \<Rightarrow> ('h, bool) action) \<Rightarrow> int list \<Rightarrow> ('h, (int \<times> bool) list) action" where
  "dict_items f [] = ret []"
| "dict_items f (i # is) =
     bind (f i) (\<lambda>b. bind (dict_items f is) (\<lambda>ps. ret ((i, b) # ps)))"

text \<open>The common shape of \<^verbatim>\<open>status\<close>, \<^verbatim>\<open>on\<close>, \<^verbatim>\<open>off\<close> and \<^verbatim>\<open>toggle\<close> before
  decoration, for the single-outlet function \<open>f\<close> of each.\<close>

definition dispatch :: "OutletDevice \<Rightarrow> (pyval \<Rightarrow> ('h, bool) action) \<Rightarrow> pyval \<Rightarrow> ('h, result) action" where
  "dispatch self f num =
     bind (lift (outlets self)) (\<lambda>outs.
       if py_in num outs then bind (f num) (\<lambda>b. ret (Scalar b))
       else if py_eq num (PStr ''all'') then
         bind (lift (outlets self)) (\<lambda>outs2.
         bind (dict_items (\<lambda>i. f (PInt i)) outs2) (\<lambda>ps. ret (Dict (dict ps))))
       else raise (OutletException num))"

text \<open>\<^verbatim>\<open>self._off(num) if self._status(num) else self._on(num)\<close>.\<close>

definition toggle_expr :: "'h pyusb \<Rightarrow> pyval \<Rightarrow> ('h, bool) action" where
  "toggle_expr usb num = bind (u_status usb num) (\<lambda>st. if st then u_off usb num else u_on usb num)"

definition status_body :: "'h pyusb \<Rightarrow> OutletDevice \<Rightarrow> pyval \<Rightarrow> ('h, result) action" where
  "status_body usb self num = dispatch self (u_status usb) num"

definition on_body :: "'h pyusb \<Rightarrow> OutletDevice \<Rightarrow> pyval \<Rightarrow> ('h, result) action" where
  "on_body usb self num = dispatch self (u_on usb) num"

definition off_body :: "'h pyusb \<Rightarrow> OutletDevice \<Rightarrow> pyval \<Rightarrow> ('h, result) action" where
  "off_body usb self num = dispatch self (u_off usb) num"

definition toggle_body :: "'h pyusb \<Rightarrow> OutletDevice \<Rightarrow> pyval \<Rightarrow> ('h, result) action" where
  "toggle_body usb self num = dispatch self (toggle_expr usb) num"

definition status :: "'h pyusb \<Rightarrow> OutletDevice \<Rightarrow> pyval \<Rightarrow> ('h, result) action" where
  "status usb self num = autodispose_dec usb self (status_body usb self num)"

definition on :: "'h pyusb \<Rightarrow> OutletDevice \<Rightarrow> pyval \<Rightarrow> ('h, result) action" where
  "on usb self num = autodispose_dec usb self (on_body usb self num)"

definition off :: "'h pyusb \<Rightarrow> OutletDevice \<Rightarrow> pyval \<Rightarrow> ('h, result) action" where
  "off usb self num = autodispose_dec usb self (off_body usb self num)"

definition toggle :: "'h pyusb \<Rightarrow> OutletDevice \<Rightarrow> pyval \<Rightarrow> ('h, result) action" where
  "toggle usb self num = autodispose_dec usb self (toggle_body usb self num)"

section \<open>Enumeration\<close>

text \<open>
  The bus is the sequence of devices that \<^verbatim>\<open>usb.core.find\<close> visits, each with the state
  of its own hardware and its own log. \<^verbatim>\<open>find(idVendor=VENDOR, find_all=True)\<close> passes
  over the devices of another vendor. \<^verbatim>\<open>get_devices\<close> is a generator: the session of
  a device is constructed when the consumer asks for it, so the loop of
  \<^verbatim>\<open>get_device_by_serial\<close> constructs a session, reads its serial and only then moves
  to the next device; nothing behind a match or an exception is touched.
\<close>

type_synonym 'h usb_bus = "(Device \<times> 'h world) list"

definition default_products :: "int list" where
  "default_products = [MSISPM_OLD, SISPM, MSISPM_FLASH, MSISPM_FLASH_NEW]"

definition enumerated :: "int list \<Rightarrow> Device \<Rightarrow> bool" where
  "enumerated products d = (idVendor d = VENDOR \<and> idProduct d \<in> set products)"

primrec get_device_by_serial ::
  "'h pyusb \<Rightarrow> string \<Rightarrow> int list \<Rightarrow> 'h usb_bus \<Rightarrow> (error + OutletDevice option) \<times> 'h usb_bus" where
  "get_device_by_serial usb ser products [] = (Inr None, [])"
| "get_device_by_serial usb ser products (dw # rest) =
     (if enumerated products (fst dw) then
        (case init_OutletDevice usb (fst dw) (snd dw) of
           (Inl e, w1) \<Rightarrow> (Inl e, (fst dw, w1) # rest)
         | (Inr self, w1) \<Rightarrow>
             (case serial usb self w1 of
                (Inl e, w2) \<Rightarrow> (Inl e, (fst dw, w2) # rest)
              | (Inr s, w2) \<Rightarrow>
                  if s = ser then (Inr (Some self), (fst dw, w2) # rest)
                  else (case get_device_by_serial usb ser products rest of
                          (r, rest') \<Rightarrow> (r, (fst dw, w2) # rest'))))
      else (case get_device_by_serial usb ser products rest of
              (r, rest') \<Rightarrow> (r, dw # rest')))"

section \<open>Vocabulary of the properties\<close>

text \<open>Kinds of logged calls.\<close>

definition is_transfer :: "event \<Rightarrow> bool" where
  "is_transfer e = (case e of CtrlTransfer rq out \<Rightarrow> True | _ \<Rightarrow> False)"

definition is_release :: "event \<Rightarrow> bool" where
  "is_release e = (case e of DisposeResources ok \<Rightarrow> True | _ \<Rightarrow> False)"

text \<open>An attempt of a write request (\<^verbatim>\<open>bRequest = 0x09\<close>), and one that the device
  accepted.\<close>

definition write_attempt :: "event \<Rightarrow> bool" where
  "write_attempt e = (case e of CtrlTransfer rq out \<Rightarrow> bRequest rq = 0x09 | _ \<Rightarrow> False)"

definition write_done :: "event \<Rightarrow> bool" where
  "write_done e = (case e of CtrlTransfer rq (Some r) \<Rightarrow> bRequest rq = 0x09 | _ \<Rightarrow> False)"

text \<open>The log of one run of the executor that makes \<open>k\<close> attempts, the last with
  outcome \<open>out\<close>: each attempt but the last fails and is followed by the delay.\<close>

definition attempt_log :: "request \<Rightarrow> nat \<Rightarrow> reply option \<Rightarrow> event list" where
  "attempt_log rq k out =
     concat (replicate (k - 1) [CtrlTransfer rq None, Sleep 50]) @ [CtrlTransfer rq out]"

text \<open>The request that switches outlet \<open>n\<close>.\<close>

definition write_request :: "int \<Rightarrow> bool \<Rightarrow> request" where
  "write_request n turn_on =
     \<lparr>bmRequestType = 0x21, bRequest = 0x09, wValue = 768 OR (n * 3), wIndex = 0,
      data_or_wLength = [word_of_int (n * 3), if turn_on then 3 else 0, 0, 0, 0, 0],
      timeout = 500\<rparr>"

text \<open>The request that reads the state of outlet \<open>n\<close>, and the decoding of its reply:
  the outlet is on when byte 1 of the reply is not zero.\<close>

definition read_request :: "int \<Rightarrow> request" where
  "read_request n =
     \<lparr>bmRequestType = 0xa1, bRequest = 0x01, wValue = 768 OR (n * 3), wIndex = 0,
      data_or_wLength = [word_of_int (n * 3), 0, 0, 0, 0, 0], timeout = 500\<rparr>"

definition decode_status :: "reply \<Rightarrow> ('h, bool) action" where
  "decode_status = (\<lambda>r. bind (lift (getitem r 1)) (\<lambda>b. ret (b \<noteq> 0)))"

text \<open>Calls that are transfers or delays; calls that are read transfers or delays.\<close>

definition io_event :: "event \<Rightarrow> bool" where
  "io_event e = (case e of CtrlTransfer rq out \<Rightarrow> True | Sleep d \<Rightarrow> True | _ \<Rightarrow> False)"

definition read_event :: "event \<Rightarrow> bool" where
  "read_event e = (case e of CtrlTransfer rq out \<Rightarrow> bRequest rq = 0x01 | Sleep d \<Rightarrow> True | _ \<Rightarrow> False)"

text \<open>A byte as two lowercase hexadecimal digits.\<close>

definition two_hex :: "byte \<Rightarrow> string" where
  "two_hex b = [hexdigit (unat b div 16), hexdigit (unat b mod 16)]"

text \<open>Running a single-outlet operation once for each outlet of a list, in order, whatever
  each run gives; the outcome of each run is kept with its outlet.\<close>

primrec run_each ::
  "(int \<Rightarrow> ('h, bool) action) \<Rightarrow> int list \<Rightarrow> 'h world \<Rightarrow> (int \<times> (error + bool)) list \<times> 'h world" where
  "run_each f [] w = ([], w)"
| "run_each f (i # is) w =
     (case f i w of (r, w1) \<Rightarrow>
        (case run_each f is w1 of (rs, w2) \<Rightarrow> ((i, r) # rs, w2)))"

text \<open>An action whose every run appends only calls of kind \<open>P\<close> to the log.\<close>

definition emits :: "(event \<Rightarrow> bool) \<Rightarrow> ('h, 'a) action \<Rightarrow> bool" where
  "emits P m = (\<forall>w. \<exists>es. calls (snd (m w)) = calls w @ es \<and> list_all P es)"

text \<open>
  A body under the decorator with the release \<open>rel\<close>, from the world \<open>w\<close>. The body itself
  releases nothing. With the flag cleared the decorated run is the run of the body. With
  the flag set the decorated run leaves the world of the body after one call of the
  release: the hardware is in the state the release left and the log is the body's log
  followed by that one release; it gives what the body gave when the release returned or
  raised \<^verbatim>\<open>USBError\<close>, and the exception of the release when that is any other.
\<close>

definition lifecycle :: "'h releaser \<Rightarrow> OutletDevice \<Rightarrow> ('h, 'a) action \<Rightarrow> 'h world \<Rightarrow> bool" where
  "lifecycle rel self body w =
     (filter is_release (calls (snd (body w))) = filter is_release (calls w)
      \<and> (if autodispose self
         then snd (autodispose_any rel self body w)
                = \<lparr>hw = snd (rel (hw (snd (body w)))),
                   calls = calls (snd (body w))
                             @ [DisposeResources (fst (rel (hw (snd (body w)))) = None)]\<rparr>
            \<and> fst (autodispose_any rel self body w)
                = (case fst (rel (hw (snd (body w)))) of
                     None \<Rightarrow> fst (body w)
                   | Some e \<Rightarrow> if e = USBError then fst (body w) else Inl e)
         else autodispose_any rel self body w = body w))"

text \<open>
  A public operation \<open>op\<close> against its body, on the library \<open>usb\<close>: the operation is the
  body under the decorator with the release of the library; it gives what the body gives;
  with the flag set it leaves the world of the body after one call of
  \<^verbatim>\<open>dispose_resources\<close> (the hardware in the state that call left, the log longer by that
  call), and with the flag cleared the world of the body.
\<close>

definition decorated :: "'h pyusb \<Rightarrow> OutletDevice \<Rightarrow> ('h, 'a) action \<Rightarrow> ('h, 'a) action \<Rightarrow> 'h world \<Rightarrow> bool" where
  "decorated usb self body op w =
     (op = autodispose_any (usb_release usb) self body
      \<and> op w
          = (fst (body w),
             if autodispose self
             then \<lparr>hw = snd (dispose_resources usb (hw (snd (body w)))),
                   calls = calls (snd (body w))
                             @ [DisposeResources (fst (dispose_resources usb (hw (snd (body w)))))]\<rparr>
             else snd (body w)))"

text \<open>The values of a sequence of outcomes, when none of them is an exception.\<close>

primrec all_values :: "(int \<times> (error + bool)) list \<Rightarrow> (int \<times> bool) list option" where
  "all_values [] = Some []"
| "all_values (p # ps) =
     (case snd p of
        Inl e \<Rightarrow> None
      | Inr b \<Rightarrow> (case all_values ps of None \<Rightarrow> None | Some d \<Rightarrow> Some ((fst p, b) # d)))"

text \<open>The serial that is read from a device of the bus when a session is constructed on
  it and asked for its serial.\<close>

definition serial_of :: "'h pyusb \<Rightarrow> Device \<times> 'h world \<Rightarrow> error + string" where
  "serial_of usb dw =
     (case init_OutletDevice usb (fst dw) (snd dw) of
        (Inl e, w1) \<Rightarrow> Inl e
      | (Inr self, w1) \<Rightarrow> fst (serial usb self w1))"

text \<open>The request that reads the serial.\<close>

definition serial_request :: request where
  "serial_request =
     \<lparr>bmRequestType = 0xa1, bRequest = 0x01, wValue = 769, wIndex = 0,
      data_or_wLength = [0, 0, 0, 0, 0, 0], timeout = 500\<rparr>"

text \<open>A scripted bus for concrete runs: the hardware state counts the transfers made so
  far, the \<open>k\<close>-th transfer has the outcome \<open>script k\<close>, and a release succeeds or
  fails as \<open>rel\<close> says.\<close>

definition scripted :: "(nat \<Rightarrow> reply option) \<Rightarrow> bool \<Rightarrow> nat pyusb" where
  "scripted script rel =
     \<lparr>ctrl_transfer = (\<lambda>rq k. (script k, Suc k)),
      dispose_resources = (\<lambda>k. (rel, k)),
      set_configuration = (\<lambda>k. (True, k))\<rparr>"

text \<open>A release with the outcome \<open>out\<close> that leaves its mark on the hardware state.\<close>

definition marking_release :: "error option \<Rightarrow> nat releaser" where
  "marking_release out k = (out, k + 100)"

text \<open>A bus on which every transfer fails, and one on which the first four do.\<close>

definition always_fails :: "nat \<Rightarrow> reply option" where
  "always_fails k = None"

definition four_failures :: "nat \<Rightarrow> reply option" where
  "four_failures k = (if k < 4 then None else Some (Written 6))"

text \<open>A device whose outlets stay off whatever is written.\<close>

definition stuck_off :: "nat \<Rightarrow> reply option" where
  "stuck_off k = (if k = 1 then Some (Written 6) else Some (Data [3, 0, 0, 0, 0, 0]))"

text \<open>A device whose outlet is on until the first write.\<close>

definition turns_off :: "nat \<Rightarrow> reply option" where
  "turns_off k =
     (if k = 2 then Some (Written 6)
      else if k < 2 then Some (Data [3, 1, 0, 0, 0, 0])
      else Some (Data [3, 0, 0, 0, 0, 0]))"

text \<open>A device with the serial number 1a:02:ff:00:0b:9c.\<close>

definition serial_bytes :: "nat \<Rightarrow> reply option" where
  "serial_bytes k = Some (Data [0x1A, 0x02, 0xFF, 0x00, 0x0B, 0x9C])"

text \<open>Two serials: which one a device gives depends on the state of its hardware. A bus
  of four devices follows below.\<close>

definition two_serials :: "nat \<Rightarrow> reply option" where
  "two_serials k =
     (if k < 10 then Some (Data [0, 0, 0, 0, 0, 1])
      else Some (Data [0x1A, 0x02, 0xFF, 0x00, 0x0B, 0x9C]))"

definition w0 :: "nat world" where
  "w0 = \<lparr>hw = 0, calls = []\<rparr>"

definition dev :: "int \<Rightarrow> Device" where
  "dev p = \<lparr>idVendor = VENDOR, idProduct = p, manufacturer = ''Gembird'', product = ''SiS-PM'',
            bus = 1, address = 2\<rparr>"

definition session :: "int \<Rightarrow> bool \<Rightarrow> OutletDevice" where
  "session p auto = \<lparr>device = dev p, autodispose = auto\<rparr>"

definition usb_bus :: "nat usb_bus" where
  "usb_bus = [(dev 0x1234, w0), (dev SISPM, w0), (dev MSISPM_OLD, \<lparr>hw = 10, calls = []\<rparr>),
              (dev SISPM, \<lparr>hw = 10, calls = []\<rparr>)]"

section \<open>The log of the executor\<close>

lemma attempt_log_one: "attempt_log rq (Suc 0) out = [CtrlTransfer rq out]"
  by (simp add: attempt_log_def)

lemma attempt_log_Suc:
  "1 \<le> k \<Longrightarrow> attempt_log rq (Suc k) out = CtrlTransfer rq None # Sleep 50 # attempt_log rq k out"
  by (cases k) (simp_all add: attempt_log_def)

lemma calls_call_ctrl_transfer:
  "call_ctrl_transfer usb rq w = (out, w1) \<Longrightarrow> calls w1 = calls w @ [CtrlTransfer rq out]"
  by (auto simp: call_ctrl_transfer_def split: prod.splits)

lemma calls_call_sleep: "calls (call_sleep w) = calls w @ [Sleep 50]"
  by (simp add: call_sleep_def)

lemma u_usb_command_from_log:
  "\<exists>k out. 1 \<le> k \<and> k \<le> Suc i
     \<and> calls (snd (u_usb_command_from usb rq i w)) = calls w @ attempt_log rq k out
     \<and> (case out of
          None \<Rightarrow> k = Suc i \<and> fst (u_usb_command_from usb rq i w) = Inl USBError
        | Some r \<Rightarrow> fst (u_usb_command_from usb rq i w) = Inr r)"
proof (induction i arbitrary: w)
  case 0
  obtain out w1 where c: "call_ctrl_transfer usb rq w = (out, w1)"
    by (cases "call_ctrl_transfer usb rq w")
  have l: "calls w1 = calls w @ attempt_log rq (Suc 0) out"
    using calls_call_ctrl_transfer [OF c] by (simp add: attempt_log_one)
  show ?case
    by (rule exI [of _ "Suc 0"], rule exI [of _ out]) (use c l in \<open>cases out; simp\<close>)
next
  case (Suc i)
  obtain out w1 where c: "call_ctrl_transfer usb rq w = (out, w1)"
    by (cases "call_ctrl_transfer usb rq w")
  note l = calls_call_ctrl_transfer [OF c]
  show ?case
  proof (cases out)
    case (Some r)
    show ?thesis
      by (rule exI [of _ "Suc 0"], rule exI [of _ out]) (use c l Some in \<open>simp add: attempt_log_one\<close>)
  next
    case None
    from Suc.IH [of "call_sleep w1"] obtain k out' where
      k: "1 \<le> k" "k \<le> Suc i"
      and lg: "calls (snd (u_usb_command_from usb rq i (call_sleep w1)))
                 = calls (call_sleep w1) @ attempt_log rq k out'"
      and rs: "(case out' of
          None \<Rightarrow> k = Suc i \<and> fst (u_usb_command_from usb rq i (call_sleep w1)) = Inl USBError
        | Some r \<Rightarrow> fst (u_usb_command_from usb rq i (call_sleep w1)) = Inr r)"
      by blast
    show ?thesis
      by (rule exI [of _ "Suc k"], rule exI [of _ out'])
        (use c l None k lg rs in \<open>simp add: attempt_log_Suc calls_call_sleep split: option.splits\<close>)
  qed
qed

lemma u_usb_command_eq: "u_usb_command usb rq w = u_usb_command_from usb rq 4 w"
  by (simp add: u_usb_command_def TRIES_def)

section \<open>Sequencing\<close>

lemma bind_Inr: "m w = (Inr x, w1) \<Longrightarrow> bind m f w = f x w1"
  by (simp add: bind_def)

lemma bind_Inl: "m w = (Inl e, w1) \<Longrightarrow> bind m f w = (Inl e, w1)"
  by (simp add: bind_def)

lemma bind_lift_Inr: "bind (lift (Inr x)) f = f x"
  by (rule ext) (simp add: bind_def lift_def)

lemma bind_lift_Inl: "bind (lift (Inl e)) f = raise e"
  by (rule ext) (simp add: bind_def lift_def raise_def)

lemma bind_ret: "bind (ret x) f = f x"
  by (rule ext) (simp add: bind_def ret_def)

lemma bind_raise: "bind (raise e) f = raise e"
  by (rule ext) (simp add: bind_def raise_def)

section \<open>What an action adds to the log\<close>

lemma emits_ret: "emits P (ret x)"
  by (simp add: emits_def ret_def)

lemma emits_raise: "emits P (raise e)"
  by (simp add: emits_def raise_def)

lemma emits_lift: "emits P (lift r)"
  by (simp add: emits_def lift_def)

lemma emits_bind:
  assumes m: "emits P m" and f: "\<And>x. emits P (f x)"
  shows "emits P (bind m f)"
  unfolding emits_def
proof
  fix w
  obtain r w1 where mw: "m w = (r, w1)" by (cases "m w")
  from m obtain es where es: "calls w1 = calls w @ es" "list_all P es"
    unfolding emits_def using mw by (metis snd_conv)
  show "\<exists>es. calls (snd (bind m f w)) = calls w @ es \<and> list_all P es"
  proof (cases r)
    case (Inl e)
    then show ?thesis using mw es by (auto simp: bind_def)
  next
    case (Inr x)
    from f [of x] obtain es2 where es2: "calls (snd (f x w1)) = calls w1 @ es2" "list_all P es2"
      unfolding emits_def by blast
    have "calls (snd (bind m f w)) = calls w @ (es @ es2)"
      using mw Inr es es2 by (simp add: bind_def)
    moreover have "list_all P (es @ es2)" using es es2 by simp
    ultimately show ?thesis by blast
  qed
qed

lemma emits_mono: "emits P m \<Longrightarrow> (\<And>e. P e \<Longrightarrow> Q e) \<Longrightarrow> emits Q m"
  unfolding emits_def list_all_iff by (metis)

lemma emits_if: "emits P a \<Longrightarrow> emits P b \<Longrightarrow> emits P (if c then a else b)"
  by simp

lemma emits_filter:
  assumes "emits P m" and "\<And>e. P e \<Longrightarrow> \<not> Q e"
  shows "filter Q (calls (snd (m w))) = filter Q (calls w)"
proof -
  from assms(1) obtain es where es: "calls (snd (m w)) = calls w @ es" "list_all P es"
    unfolding emits_def by blast
  have "filter Q es = []" using es(2) assms(2) by (auto simp: list_all_iff filter_empty_conv)
  then show ?thesis using es(1) by simp
qed

lemma list_all_attempt_log:
  "P (CtrlTransfer rq None) \<Longrightarrow> P (Sleep 50) \<Longrightarrow> P (CtrlTransfer rq out) \<Longrightarrow> list_all P (attempt_log rq k out)"
  by (simp add: attempt_log_def list_all_iff) 

lemma u_usb_command_log:
  "\<exists>k out. 1 \<le> k \<and> k \<le> 5
     \<and> calls (snd (u_usb_command usb rq w)) = calls w @ attempt_log rq k out
     \<and> (out = None \<longrightarrow> k = 5 \<and> fst (u_usb_command usb rq w) = Inl USBError)
     \<and> (\<forall>r. out = Some r \<longrightarrow> fst (u_usb_command usb rq w) = Inr r)"
proof -
  from u_usb_command_from_log [of 4 usb rq w] obtain k out where
    k: "1 \<le> k" "k \<le> Suc 4"
    and l: "calls (snd (u_usb_command_from usb rq 4 w)) = calls w @ attempt_log rq k out"
    and c: "(case out of
          None \<Rightarrow> k = Suc 4 \<and> fst (u_usb_command_from usb rq 4 w) = Inl USBError
        | Some r \<Rightarrow> fst (u_usb_command_from usb rq 4 w) = Inr r)"
    by blast
  show ?thesis
    unfolding u_usb_command_eq
    by (rule exI [of _ k], rule exI [of _ out]) (use k l c in \<open>cases out; simp\<close>)
qed

lemma emits_u_usb_command:
  assumes "\<And>out. P (CtrlTransfer rq out)" and "P (Sleep 50)"
  shows "emits P (u_usb_command usb rq)"
  unfolding emits_def
proof
  fix w
  from u_usb_command_log [of usb rq w] obtain k out where
    "calls (snd (u_usb_command usb rq w)) = calls w @ attempt_log rq k out"
    by blast
  then show "\<exists>es. calls (snd (u_usb_command usb rq w)) = calls w @ es \<and> list_all P es"
    using list_all_attempt_log [of P rq out k] assms by blast
qed

lemma u_usb_command_Inr_log:
  assumes "u_usb_command usb rq w = (Inr r, w2)"
  shows "\<exists>k. 1 \<le> k \<and> k \<le> 5 \<and> calls w2 = calls w @ attempt_log rq k (Some r)"
proof -
  from u_usb_command_log [of usb rq w] obtain k out where
    k: "1 \<le> k" "k \<le> 5" and l: "calls (snd (u_usb_command usb rq w)) = calls w @ attempt_log rq k out"
    and c: "out = None \<longrightarrow> k = 5 \<and> fst (u_usb_command usb rq w) = Inl USBError"
       "\<forall>r. out = Some r \<longrightarrow> fst (u_usb_command usb rq w) = Inr r"
    by blast
  from c assms have "out = Some r" by (cases out) auto
  with k l assms show ?thesis by auto
qed

lemma filter_write_done_attempt_log:
  "bRequest rq = 0x09 \<Longrightarrow> filter write_done (attempt_log rq k (Some r)) = [CtrlTransfer rq (Some r)]"
  by (induction k) (auto simp: attempt_log_def write_done_def)

section \<open>The codec on outlet numbers\<close>

lemma outlets_cases: "outlets self = Inr outs \<Longrightarrow> outs = [1] \<or> outs = [1, 2, 3, 4]"
  by (auto simp: outlets_def DEVICE_TYPES_def split: if_splits)

lemma outlet_range: "outlets self = Inr outs \<Longrightarrow> n \<in> set outs \<Longrightarrow> 1 \<le> n \<and> n \<le> 4"
  by (drule outlets_cases) auto

lemma py_in_PInt: "py_in (PInt n) outs = (n \<in> set outs)"
  by (auto simp: py_in_def py_eq_def py_num_def list_ex_iff)

lemma py_in_all: "\<not> py_in (PStr s) outs"
  by (simp add: py_in_def py_eq_def py_num_def list_ex_iff)

lemma setitem_bytearray_0:
  "0 \<le> k \<Longrightarrow> k < 256 \<Longrightarrow> setitem (bytearray 6) 0 (PInt k) = Inr [word_of_int k, 0, 0, 0, 0, 0]"
  by (simp add: setitem_def bytearray_def eval_nat_numeral)

lemma setitem_1: "setitem [a, 0, 0, 0, 0, 0] (Suc 0) (PInt 3) = Inr [a, 3, 0, 0, 0, 0]"
  by (simp add: setitem_def)

lemma u_status_PInt:
  assumes "0 \<le> n" "n \<le> 85"
  shows "u_status usb (PInt n) = bind (u_usb_command usb (read_request n)) decode_status"
  using assms
  by (simp add: u_status_def py_mul_def setitem_bytearray_0 py_or_def bind_lift_Inr
      read_request_def decode_status_def)

lemma u_on_PInt:
  assumes "0 \<le> n" "n \<le> 85"
  shows "u_on usb (PInt n) =
     bind (u_status usb (PInt n)) (\<lambda>st. if st then ret True
        else bind (u_usb_command usb (write_request n True)) (\<lambda>r. u_status usb (PInt n)))"
  using assms
  by (simp add: u_on_def py_mul_def setitem_bytearray_0 setitem_1 py_or_def bind_lift_Inr
      write_request_def cong: if_cong)

lemma u_off_PInt:
  assumes "0 \<le> n" "n \<le> 85"
  shows "u_off usb (PInt n) =
     bind (u_status usb (PInt n)) (\<lambda>st. if \<not> st then ret True
        else bind (u_usb_command usb (write_request n False))
               (\<lambda>r. bind (u_status usb (PInt n)) (\<lambda>st2. ret (\<not> st2))))"
  using assms
  by (simp add: u_off_def py_mul_def setitem_bytearray_0 py_or_def bind_lift_Inr
      write_request_def cong: if_cong)

lemma emits_u_status: "emits read_event (u_status usb num)"
  unfolding u_status_def
  by (intro emits_bind emits_lift emits_ret emits_u_usb_command) (simp_all add: read_event_def)

lemma read_event_io: "read_event e \<Longrightarrow> io_event e"
  by (cases e) (simp_all add: read_event_def io_event_def)

lemma emits_u_on: "emits io_event (u_on usb num)"
  unfolding u_on_def
  by (intro emits_bind emits_if emits_lift emits_ret emits_u_usb_command
      emits_mono [OF emits_u_status read_event_io]) (simp_all add: io_event_def)

lemma emits_u_off: "emits io_event (u_off usb num)"
  unfolding u_off_def
  by (intro emits_bind emits_if emits_lift emits_ret emits_u_usb_command
      emits_mono [OF emits_u_status read_event_io]) (simp_all add: io_event_def)

lemma emits_toggle_expr: "emits io_event (toggle_expr usb num)"
  unfolding toggle_expr_def
  by (intro emits_bind emits_if emits_u_on emits_u_off emits_mono [OF emits_u_status read_event_io])

lemma dispatch_valid:
  assumes "outlets self = Inr outs" "n \<in> set outs"
  shows "dispatch self f (PInt n) = bind (f (PInt n)) (\<lambda>b. ret (Scalar b))"
  using assms by (simp add: dispatch_def bind_lift_Inr py_in_PInt)

lemma autodispose_dec_eq:
  "func w = (r, w1) \<Longrightarrow> autodispose_dec usb self func w = (r, release usb self w1)"
  by (simp add: autodispose_dec_def)

lemma calls_release:
  "calls (release usb self w) =
     calls w @ (if autodispose self then [DisposeResources (fst (dispose_resources usb (hw w)))] else [])"
  by (simp add: release_def call_dispose_resources_def split: prod.splits)

section \<open>The public operations and the decorator\<close>

lemma emits_dict_items:
  assumes "\<And>i. emits P (f i)"
  shows "emits P (dict_items f outs)"
  by (induction outs) (auto intro!: emits_bind emits_ret assms)

lemma emits_dispatch:
  assumes "\<And>v. emits P (f v)"
  shows "emits P (dispatch self f num)"
  unfolding dispatch_def
  by (intro emits_bind emits_if emits_lift emits_ret emits_raise emits_dict_items assms)

lemma io_event_not_release: "io_event e \<Longrightarrow> \<not> is_release e"
  by (cases e) (simp_all add: io_event_def is_release_def)

lemma emits_status_body: "emits io_event (status_body usb self num)"
  unfolding status_body_def by (intro emits_dispatch emits_mono [OF emits_u_status read_event_io])

lemma emits_on_body: "emits io_event (on_body usb self num)"
  unfolding on_body_def by (intro emits_dispatch emits_u_on)

lemma emits_off_body: "emits io_event (off_body usb self num)"
  unfolding off_body_def by (intro emits_dispatch emits_u_off)

lemma emits_toggle_body: "emits io_event (toggle_body usb self num)"
  unfolding toggle_body_def by (intro emits_dispatch emits_toggle_expr)

lemma emits_u_get_serial_body: "emits io_event (u_get_serial_body usb)"
  unfolding u_get_serial_body_def by (intro emits_u_usb_command) (simp_all add: io_event_def)

lemma release_off: "\<not> autodispose self \<Longrightarrow> release usb self w = w"
  by (simp add: release_def)

lemma autodispose_dec_any: "autodispose_dec usb self func = autodispose_any (usb_release usb) self func"
proof
  fix w
  obtain r w1 where f: "func w = (r, w1)" by (cases "func w")
  obtain ok h where d: "dispose_resources usb (hw w1) = (ok, h)"
    by (cases "dispose_resources usb (hw w1)")
  show "autodispose_dec usb self func w = autodispose_any (usb_release usb) self func w"
    using f d
    by (simp add: autodispose_dec_def autodispose_any_def release_def call_dispose_resources_def
        call_release_def usb_release_def)
qed

lemma lifecycle_autodispose_any:
  assumes "emits io_event body"
  shows "lifecycle rel self body w"
proof -
  have n: "filter is_release (calls (snd (body w))) = filter is_release (calls w)"
    using emits_filter [OF assms, of is_release w] io_event_not_release by blast
  obtain r w1 where f: "body w = (r, w1)" by (cases "body w")
  obtain out h where d: "rel (hw w1) = (out, h)" by (cases "rel (hw w1)")
  show ?thesis
    using n f d
    by (cases out) (simp_all add: lifecycle_def autodispose_any_def call_release_def)
qed

lemma decorated_autodispose_dec: "decorated usb self body (autodispose_dec usb self body) w"
proof -
  obtain r w1 where f: "body w = (r, w1)" by (cases "body w")
  obtain ok h where d: "dispose_resources usb (hw w1) = (ok, h)"
    by (cases "dispose_resources usb (hw w1)")
  show ?thesis
    using f d
    by (simp add: decorated_def autodispose_dec_any [symmetric] autodispose_dec_def release_def
        call_dispose_resources_def)
qed

lemma dispose_eq:
  "dispose usb w
     = (if fst (dispose_resources usb (hw w)) then Inr () else Inl USBError,
        \<lparr>hw = snd (dispose_resources usb (hw w)),
           calls = calls w @ [DisposeResources (fst (dispose_resources usb (hw w)))]\<rparr>)"
  by (cases "dispose_resources usb (hw w)")
    (auto simp: dispose_def call_dispose_resources_def split: bool.splits)

section \<open>The dictionary of all outlets\<close>

lemma map_fst_run_each: "map fst (fst (run_each f outs w)) = outs"
proof (induction outs arbitrary: w)
  case Nil
  show ?case by simp
next
  case (Cons i outs)
  obtain r w1 where f: "f i w = (r, w1)" by (cases "f i w")
  obtain rs w2 where r: "run_each f outs w1 = (rs, w2)" by (cases "run_each f outs w1")
  from Cons.IH [of w1] r have "map fst rs = outs" by simp
  then show ?case using f r by simp
qed

lemma map_fst_all_values: "all_values rs = Some d \<Longrightarrow> map fst d = map fst rs"
  by (induction rs arbitrary: d) (auto split: sum.splits option.splits)

lemma dict_items_run_each:
  "all_values (fst (run_each f outs w)) = Some d
     \<Longrightarrow> dict_items f outs w = (Inr d, snd (run_each f outs w))"
proof (induction outs arbitrary: w d)
  case Nil
  then show ?case by (simp add: ret_def)
next
  case (Cons i outs)
  obtain r w1 where f: "f i w = (r, w1)" by (cases "f i w")
  obtain rs w2 where r: "run_each f outs w1 = (rs, w2)" by (cases "run_each f outs w1")
  from Cons.prems f r obtain b d' where
    b: "r = Inr b" and d': "all_values rs = Some d'" and d: "d = (i, b) # d'"
    by (auto split: sum.splits option.splits)
  from Cons.IH [of w1 d'] r d' have "dict_items f outs w1 = (Inr d', w2)" by simp
  then show ?case using f r b d by (simp add: bind_def ret_def)
qed

lemma update_fresh: "k \<notin> fst ` set al \<Longrightarrow> AList.update k v al = al @ [(k, v)]"
  by (induction al) auto

lemma foldl_update_distinct:
  "distinct (map fst (acc @ ps))
     \<Longrightarrow> foldl (\<lambda>d p. AList.update (fst p) (snd p) d) acc ps = acc @ ps"
proof (induction ps arbitrary: acc)
  case Nil
  then show ?case by simp
next
  case (Cons p ps)
  have "fst p \<notin> fst ` set acc" using Cons.prems by auto
  then have u: "AList.update (fst p) (snd p) acc = acc @ [p]" by (simp add: update_fresh)
  have "distinct (map fst ((acc @ [p]) @ ps))" using Cons.prems by simp
  from Cons.IH [OF this] u show ?case by simp
qed

lemma dict_distinct: "distinct (map fst ps) \<Longrightarrow> dict ps = ps"
  using foldl_update_distinct [of "[]" ps] by (simp add: dict_def)

lemma outlets_distinct: "outlets self = Inr outs \<Longrightarrow> distinct outs"
  by (drule outlets_cases) auto

lemma not_all_in: "py_eq (PStr ''all'') (PStr ''all'')"
  by (simp add: py_eq_def)

lemma dispatch_all:
  assumes o: "outlets self = Inr outs"
    and a: "all_values (fst (run_each (\<lambda>i. f (PInt i)) outs w)) = Some d"
  shows "dispatch self f (PStr ''all'') w = (Inr (Dict d), snd (run_each (\<lambda>i. f (PInt i)) outs w))"
    and "map fst d = outs"
proof -
  show k: "map fst d = outs"
    using map_fst_all_values [OF a] by (simp add: map_fst_run_each)
  have "dict d = d" using k outlets_distinct [OF o] by (simp add: dict_distinct)
  then show "dispatch self f (PStr ''all'') w = (Inr (Dict d), snd (run_each (\<lambda>i. f (PInt i)) outs w))"
    using o dict_items_run_each [OF a]
    by (simp add: dispatch_def bind_lift_Inr py_in_all not_all_in bind_def ret_def)
qed

lemma decorated_all:
  assumes o: "outlets self = Inr outs"
    and a: "all_values (fst (run_each (\<lambda>i. f (PInt i)) outs w)) = Some d"
  shows "autodispose_dec usb self (dispatch self f (PStr ''all'')) w
           = (Inr (Dict d), release usb self (snd (run_each (\<lambda>i. f (PInt i)) outs w)))
         \<and> map fst d = outs"
  using dispatch_all [OF o a] by (simp add: autodispose_dec_def)

section \<open>Hexadecimal digits\<close>

lemma hex_digits_small: "n < 16 \<Longrightarrow> hex_digits n = [hexdigit n]"
  by (simp add: hex_digits.simps)

lemma hex_digits_two: "16 \<le> n \<Longrightarrow> n < 256 \<Longrightarrow> hex_digits n = [hexdigit (n div 16), hexdigit (n mod 16)]"
  by (subst hex_digits.simps) (simp add: hex_digits_small)

lemma hexdigit_not_sign: "n < 16 \<Longrightarrow> hexdigit n \<noteq> CHR ''+'' \<and> hexdigit n \<noteq> CHR ''-''"
proof -
  assume "n < 16"
  then have "n \<in> set [0..<16]" by simp
  then show ?thesis
    unfolding hexdigit_def by (simp add: upt_rec eval_nat_numeral) (elim disjE; simp)
qed

lemma hexdigit_0: "hexdigit 0 = CHR ''0''"
  by (simp add: hexdigit_def)

lemma byte_as_hex: "zfill 2 (drop 2 (hex (uint (b :: byte)))) = two_hex b"
proof -
  have lt: "unat b < 256" using unsigned_less [of b, where ?'a = nat] by simp
  have h: "drop 2 (hex (uint b)) = hex_digits (unat b)"
    by (simp add: hex_def)
  show ?thesis
  proof (cases "unat b < 16")
    case True
    then show ?thesis
      using hexdigit_not_sign [OF True]
      by (simp add: h hex_digits_small zfill_def two_hex_def hexdigit_0)
  next
    case False
    then show ?thesis using lt
      by (simp add: h hex_digits_two zfill_def two_hex_def)
  qed
qed

section \<open>The scan of the bus\<close>

lemma init_OutletDevice_Inr:
  "init_OutletDevice usb d w = (Inr self, w1) \<Longrightarrow> self = \<lparr>device = d, autodispose = True\<rparr>"
  by (auto simp: init_OutletDevice_def split: prod.splits bool.splits)

lemma get_device_by_serial_find:
  assumes "\<forall>dw \<in> set devs. enumerated products (fst dw) \<longrightarrow> (\<exists>s. serial_of usb dw = Inr s)"
  shows "fst (get_device_by_serial usb ser products devs)
           = Inr (map_option (\<lambda>dw. \<lparr>device = fst dw, autodispose = True\<rparr>)
                   (List.find (\<lambda>dw. enumerated products (fst dw) \<and> serial_of usb dw = Inr ser) devs))"
  using assms
proof (induction devs)
  case Nil
  show ?case by simp
next
  case (Cons dw rest)
  have IH: "fst (get_device_by_serial usb ser products rest)
           = Inr (map_option (\<lambda>dw. \<lparr>device = fst dw, autodispose = True\<rparr>)
                   (List.find (\<lambda>dw. enumerated products (fst dw) \<and> serial_of usb dw = Inr ser) rest))"
    using Cons by simp
  obtain r rest' where g: "get_device_by_serial usb ser products rest = (r, rest')"
    by (cases "get_device_by_serial usb ser products rest")
  note IH = IH [unfolded g fst_conv]
  show ?case
  proof (cases "enumerated products (fst dw)")
    case False
    then show ?thesis using IH g by simp
  next
    case True
    with Cons.prems obtain s where s: "serial_of usb dw = Inr s" by auto
    then obtain self w1 where i: "init_OutletDevice usb (fst dw) (snd dw) = (Inr self, w1)"
      and f: "fst (serial usb self w1) = Inr s"
      by (auto simp: serial_of_def split: prod.splits sum.splits)
    obtain w2 where sr: "serial usb self w1 = (Inr s, w2)"
      using f by (cases "serial usb self w1") simp
    note self = init_OutletDevice_Inr [OF i]
    show ?thesis
      using True s i sr self IH g by simp
  qed
qed

section \<open>Unknown products and values equal to an outlet\<close>

lemma DEVICE_TYPES_None_iff: "DEVICE_TYPES p = None \<longleftrightarrow> p \<notin> set default_products"
  by (simp add: DEVICE_TYPES_def default_products_def)

lemma dispatch_unknown:
  assumes "DEVICE_TYPES (idProduct (device self)) = None"
  shows "dispatch self f v w = (Inl (KeyError (idProduct (device self))), w)"
  using assms by (simp add: dispatch_def outlets_def bind_lift_Inl raise_def)

lemma one_is_outlet: "outlets self = Inr outs \<Longrightarrow> 1 \<in> set outs"
  by (drule outlets_cases) auto

lemma py_in_True: "py_in (PBool True) outs = (1 \<in> set outs)"
  by (auto simp: py_in_def py_eq_def py_num_def list_ex_iff)

lemma py_in_float_one: "py_in (PFloat 1) outs = (1 \<in> set outs)"
  by (auto simp: py_in_def py_eq_def py_num_def list_ex_iff)

lemma u_status_True: "u_status usb (PBool True) = u_status usb (PInt 1)"
  by (simp add: u_status_def py_mul_def)

lemma u_on_True: "u_on usb (PBool True) = u_on usb (PInt 1)"
  by (simp add: u_on_def py_mul_def u_status_True cong: if_cong)

lemma u_off_True: "u_off usb (PBool True) = u_off usb (PInt 1)"
  by (simp add: u_off_def py_mul_def u_status_True cong: if_cong)

lemma toggle_expr_True: "toggle_expr usb (PBool True) = toggle_expr usb (PInt 1)"
  by (simp add: toggle_expr_def u_status_True u_on_True u_off_True cong: if_cong)

lemma u_status_float: "u_status usb (PFloat r) = raise TypeError"
  by (simp add: u_status_def py_mul_def setitem_def bytearray_def bind_lift_Inl)

lemma u_on_float: "u_on usb (PFloat r) = raise TypeError"
  by (simp add: u_on_def u_status_float bind_raise)

lemma u_off_float: "u_off usb (PFloat r) = raise TypeError"
  by (simp add: u_off_def u_status_float bind_raise)

lemma toggle_expr_float: "toggle_expr usb (PFloat r) = raise TypeError"
  by (simp add: toggle_expr_def u_status_float bind_raise)

lemma dispatch_True:
  assumes o: "outlets self = Inr outs" and f: "f (PBool True) = f (PInt 1)"
  shows "dispatch self f (PBool True) = dispatch self f (PInt 1)"
  using o one_is_outlet [OF o] f
  by (simp add: dispatch_def bind_lift_Inr py_in_True py_in_PInt)

lemma dispatch_float_one:
  assumes o: "outlets self = Inr outs" and f: "f (PFloat 1) = raise TypeError"
  shows "dispatch self f (PFloat 1) = raise TypeError"
  using o one_is_outlet [OF o] f
  by (simp add: dispatch_def bind_lift_Inr py_in_float_one bind_raise)

text \<open>Unfolding the definitions on the scripted bus.\<close>

lemmas run_defs =
  u_status_def u_on_def u_off_def toggle_expr_def u_usb_command_def u_get_serial_def
  u_get_serial_body_def TRIES_def
  py_mul_def setitem_def bytearray_def py_or_def getitem_def py_in_def py_eq_def py_num_def
  bind_def lift_def ret_def raise_def
  call_ctrl_transfer_def call_sleep_def call_dispose_resources_def call_set_configuration_def
  release_def autodispose_dec_def dispatch_def outlets_def DEVICE_TYPES_def
  status_def on_def off_def toggle_def status_body_def on_body_def off_body_def toggle_body_def
  MSISPM_OLD_def SISPM_def MSISPM_FLASH_def MSISPM_FLASH_NEW_def VENDOR_def
  scripted_def w0_def dev_def session_def read_request_def write_request_def dict_def

section \<open>Claims\<close>

text \<open>
  C1. Let \<open>n\<close> be an outlet of the device and let the first status read of \<^verbatim>\<open>on(n)\<close>
  return \<open>st\<close>. If \<open>st\<close> is true, \<^verbatim>\<open>on(n)\<close> returns \<open>True\<close> in the world the read left
  (but for the release of the decorator), and no attempt of a write request has been added
  to the log. If \<open>st\<close> is false and the executor's run on the write request of outlet \<open>n\<close>
  succeeds, \<^verbatim>\<open>on(n)\<close> returns what the status read after it returns, \<open>False\<close> included,
  and exactly one accepted write transfer, that of this request, has been added to the
  log. \<^verbatim>\<open>off(n)\<close> is symmetric: it returns \<open>True\<close> without a write when \<open>st\<close> is false,
  and otherwise writes once and returns the negation of the status read after it.
\<close>

theorem on_off_confirmation:
  assumes o: "outlets self = Inr outs" and n: "n \<in> set outs"
    and s: "u_status usb (PInt n) w = (Inr st, w1)"
  shows
    "(st \<longrightarrow>
        on usb self (PInt n) w = (Inr (Scalar True), release usb self w1)
      \<and> filter write_attempt (calls (release usb self w1)) = filter write_attempt (calls w))
   \<and> (\<not> st \<longrightarrow> (\<forall>r w2 st2 w3.
        u_usb_command usb (write_request n True) w1 = (Inr r, w2)
        \<longrightarrow> u_status usb (PInt n) w2 = (Inr st2, w3)
        \<longrightarrow> on usb self (PInt n) w = (Inr (Scalar st2), release usb self w3)
          \<and> filter write_done (calls (release usb self w3))
              = filter write_done (calls w) @ [CtrlTransfer (write_request n True) (Some r)]))
   \<and> (\<not> st \<longrightarrow>
        off usb self (PInt n) w = (Inr (Scalar True), release usb self w1)
      \<and> filter write_attempt (calls (release usb self w1)) = filter write_attempt (calls w))
   \<and> (st \<longrightarrow> (\<forall>r w2 st2 w3.
        u_usb_command usb (write_request n False) w1 = (Inr r, w2)
        \<longrightarrow> u_status usb (PInt n) w2 = (Inr st2, w3)
        \<longrightarrow> off usb self (PInt n) w = (Inr (Scalar (\<not> st2)), release usb self w3)
          \<and> filter write_done (calls (release usb self w3))
              = filter write_done (calls w) @ [CtrlTransfer (write_request n False) (Some r)]))"
proof -
  have rng: "0 \<le> n" "n \<le> 85" using outlet_range [OF o n] by auto
  note on_eq = u_on_PInt [OF rng, of usb]
  note off_eq = u_off_PInt [OF rng, of usb]
  have rd: "\<And>w. filter Q (calls (snd (u_status usb (PInt n) w))) = filter Q (calls w)"
    if "\<And>e. read_event e \<Longrightarrow> \<not> Q e" for Q
    using emits_filter [OF emits_u_status] that by blast
  have rel: "\<And>w. filter Q (calls (release usb self w)) = filter Q (calls w)"
    if "\<And>ok. \<not> Q (DisposeResources ok)" for Q
    using that by (simp add: calls_release)
  have nw: "\<And>e. read_event e \<Longrightarrow> \<not> write_attempt e"
    by (auto simp: read_event_def write_attempt_def split: event.splits)
  have nd: "\<And>e. read_event e \<Longrightarrow> \<not> write_done e"
    by (auto simp: read_event_def write_done_def split: event.splits option.splits)
  have w1_att: "filter write_attempt (calls w1) = filter write_attempt (calls w)"
    using rd [of write_attempt w] nw s by simp
  have w1_done: "filter write_done (calls w1) = filter write_done (calls w)"
    using rd [of write_done w] nd s by simp
  have short_on: "on usb self (PInt n) w = (Inr (Scalar True), release usb self w1)" if st
    using that s
    by (simp add: on_def on_body_def dispatch_valid [OF o n] on_eq autodispose_dec_def bind_def ret_def)
  have short_off: "off usb self (PInt n) w = (Inr (Scalar True), release usb self w1)" if "\<not> st"
    using that s
    by (simp add: off_def off_body_def dispatch_valid [OF o n] off_eq autodispose_dec_def bind_def ret_def)
  have att: "filter write_attempt (calls (release usb self w1)) = filter write_attempt (calls w)"
    using w1_att by (simp add: rel write_attempt_def)
  have dn: "filter write_done (calls (release usb self w3))
      = filter write_done (calls w) @ [CtrlTransfer (write_request n b) (Some r)]"
    if c: "u_usb_command usb (write_request n b) w1 = (Inr r, w2)"
      and s2: "u_status usb (PInt n) w2 = (Inr st2, w3)" for b r w2 st2 w3
  proof -
    from u_usb_command_Inr_log [OF c] obtain k where
      k: "calls w2 = calls w1 @ attempt_log (write_request n b) k (Some r)" by blast
    have "filter write_done (calls w3) = filter write_done (calls w2)"
      using rd [of write_done w2] nd s2 by simp
    then show ?thesis
      using k w1_done
      by (simp add: rel write_done_def filter_write_done_attempt_log write_request_def)
  qed
  have long_on: "on usb self (PInt n) w = (Inr (Scalar st2), release usb self w3)"
    if "\<not> st" and c: "u_usb_command usb (write_request n True) w1 = (Inr r, w2)"
      and s2: "u_status usb (PInt n) w2 = (Inr st2, w3)" for r w2 st2 w3
    using that s
    by (simp add: on_def on_body_def dispatch_valid [OF o n] on_eq autodispose_dec_def bind_def ret_def)
  have long_off: "off usb self (PInt n) w = (Inr (Scalar (\<not> st2)), release usb self w3)"
    if "st" and c: "u_usb_command usb (write_request n False) w1 = (Inr r, w2)"
      and s2: "u_status usb (PInt n) w2 = (Inr st2, w3)" for r w2 st2 w3
    using that s
    by (simp add: off_def off_body_def dispatch_valid [OF o n] off_eq autodispose_dec_def bind_def ret_def)
  show ?thesis
    using short_on short_off att dn long_on long_off by blast
qed

text \<open>An outlet that stays off: \<^verbatim>\<open>on(1)\<close> reads, writes once, reads again and returns
  \<open>False\<close>.\<close>

theorem on_off_confirmation_witness:
  "outlets (session SISPM True) = Inr [1, 2, 3, 4] \<and> (1::int) \<in> set [1, 2, 3, 4]
   \<and> u_status (scripted stuck_off True) (PInt 1) w0
       = (Inr False, \<lparr>hw = 1, calls = [CtrlTransfer (read_request 1) (stuck_off 0)]\<rparr>)
   \<and> on (scripted stuck_off True) (session SISPM True) (PInt 1) w0
       = (Inr (Scalar False),
          \<lparr>hw = 3, calls = [CtrlTransfer (read_request 1) (stuck_off 0),
                             CtrlTransfer (write_request 1 True) (stuck_off 1),
                             CtrlTransfer (read_request 1) (stuck_off 2),
                             DisposeResources True]\<rparr>)"
proof -
  have h1: "outlets (session SISPM True) = Inr [1, 2, 3, 4]"
    by (simp add: run_defs)
  have h2: "(1::int) \<in> set [1, 2, 3, 4]" by simp
  have h3: "u_status (scripted stuck_off True) (PInt 1) w0
       = (Inr False, \<lparr>hw = 1, calls = [CtrlTransfer (read_request 1) (stuck_off 0)]\<rparr>)"
    by (simp add: run_defs stuck_off_def eval_nat_numeral)
  have c: "u_usb_command (scripted stuck_off True) (write_request 1 True)
             \<lparr>hw = 1, calls = [CtrlTransfer (read_request 1) (stuck_off 0)]\<rparr>
       = (Inr (Written 6), \<lparr>hw = 2, calls = [CtrlTransfer (read_request 1) (stuck_off 0),
                             CtrlTransfer (write_request 1 True) (stuck_off 1)]\<rparr>)"
    by (simp add: run_defs stuck_off_def eval_nat_numeral)
  have s2: "u_status (scripted stuck_off True) (PInt 1)
              \<lparr>hw = 2, calls = [CtrlTransfer (read_request 1) (stuck_off 0),
                             CtrlTransfer (write_request 1 True) (stuck_off 1)]\<rparr>
       = (Inr False, \<lparr>hw = 3, calls = [CtrlTransfer (read_request 1) (stuck_off 0),
                             CtrlTransfer (write_request 1 True) (stuck_off 1),
                             CtrlTransfer (read_request 1) (stuck_off 2)]\<rparr>)"
    by (simp add: run_defs stuck_off_def eval_nat_numeral)
  from on_off_confirmation [OF h1 h2 h3] c s2
  have "on (scripted stuck_off True) (session SISPM True) (PInt 1) w0
       = (Inr (Scalar False), release (scripted stuck_off True) (session SISPM True)
            \<lparr>hw = 3, calls = [CtrlTransfer (read_request 1) (stuck_off 0),
                             CtrlTransfer (write_request 1 True) (stuck_off 1),
                             CtrlTransfer (read_request 1) (stuck_off 2)]\<rparr>)"
    by blast
  then show ?thesis using h1 h2 h3
    by (simp add: release_def call_dispose_resources_def scripted_def session_def)
qed


text \<open>
  C2. Every run of the executor \<^verbatim>\<open>_usb_command\<close> makes \<open>k\<close> attempts of the same request
  with \<open>1 \<le> k \<le> 5\<close>. What it adds to the log is exactly: \<open>k - 1\<close> failed attempts, each
  followed by the 50 ms delay, and then the last attempt, after which nothing is logged
  (no further attempt, no trailing delay). If the last attempt succeeds, its reply is the
  result. If it fails, it was the fifth attempt and \<^verbatim>\<open>USBError\<close> reaches the caller.
\<close>

theorem usb_command_attempts:
  "\<exists>k out. 1 \<le> k \<and> k \<le> 5
     \<and> calls (snd (u_usb_command usb rq w)) = calls w @ attempt_log rq k out
     \<and> (case out of
          None \<Rightarrow> k = 5 \<and> fst (u_usb_command usb rq w) = Inl USBError
        | Some r \<Rightarrow> fst (u_usb_command usb rq w) = Inr r)"
  unfolding u_usb_command_eq
  using u_usb_command_from_log [of 4 usb rq w] by (simp cong: option.case_cong)

text \<open>Four failures and a success: five attempts, four delays, the reply. Five failures:
  five attempts, four delays, \<^verbatim>\<open>USBError\<close>.\<close>

theorem usb_command_attempts_witness:
  "u_usb_command (scripted four_failures True) (write_request 1 True) w0
     = (Inr (Written 6), \<lparr>hw = 5, calls = attempt_log (write_request 1 True) 5 (Some (Written 6))\<rparr>)
   \<and> u_usb_command (scripted always_fails True) (write_request 1 True) w0
     = (Inl USBError, \<lparr>hw = 5, calls = attempt_log (write_request 1 True) 5 None\<rparr>)"
  using usb_command_attempts [of "scripted four_failures True" "write_request 1 True" w0]
  by (simp add: u_usb_command_def TRIES_def eval_nat_numeral call_ctrl_transfer_def call_sleep_def
      scripted_def w0_def attempt_log_def always_fails_def four_failures_def)

text \<open>
  C3. On a device of a known type, let \<open>v\<close> be a value that is not in the outlet tuple (by
  Python's \<^verbatim>\<open>in\<close>) and is not equal to \<^verbatim>\<open>'all'\<close>. Then each of \<^verbatim>\<open>status(v)\<close>,
  \<^verbatim>\<open>on(v)\<close>, \<^verbatim>\<open>off(v)\<close> and \<^verbatim>\<open>toggle(v)\<close> raises \<^verbatim>\<open>OutletException\<close> carrying
  \<open>v\<close>; the only thing done before the exception leaves is the release of the decorator,
  so the transfers in the log are those that were there before the call.
\<close>

theorem illegal_outlet:
  assumes o: "outlets self = Inr outs" and v: "\<not> py_in v outs" and a: "\<not> py_eq v (PStr ''all'')"
  shows "status usb self v w = (Inl (OutletException v), release usb self w)
       \<and> on usb self v w = (Inl (OutletException v), release usb self w)
       \<and> off usb self v w = (Inl (OutletException v), release usb self w)
       \<and> toggle usb self v w = (Inl (OutletException v), release usb self w)
       \<and> filter is_transfer (calls (release usb self w)) = filter is_transfer (calls w)"
proof -
  have d: "dispatch self f v w = (Inl (OutletException v), w)" for f :: "pyval \<Rightarrow> ('a, bool) action"
    using o v a by (simp add: dispatch_def bind_lift_Inr raise_def)
  have t: "filter is_transfer (calls (release usb self w)) = filter is_transfer (calls w)"
    by (simp add: calls_release is_transfer_def)
  show ?thesis
    using d t
    by (simp add: status_def on_def off_def toggle_def status_body_def on_body_def off_body_def
        toggle_body_def autodispose_dec_def)
qed

text \<open>Outlet 5 of a four-outlet device.\<close>

theorem illegal_outlet_witness:
  "outlets (session SISPM True) = Inr [1, 2, 3, 4]
   \<and> \<not> py_in (PInt 5) [1, 2, 3, 4] \<and> \<not> py_eq (PInt 5) (PStr ''all'')
   \<and> toggle (scripted stuck_off True) (session SISPM True) (PInt 5) w0
       = (Inl (OutletException (PInt 5)), \<lparr>hw = 0, calls = [DisposeResources True]\<rparr>)"
proof -
  have h1: "outlets (session SISPM True) = Inr [1, 2, 3, 4]"
    by (simp add: run_defs)
  have h2: "\<not> py_in (PInt 5) [1, 2, 3, 4]" by (simp add: py_in_PInt)
  have h3: "\<not> py_eq (PInt 5) (PStr ''all'')" by (simp add: py_eq_def py_num_def)
  show ?thesis
    using illegal_outlet [OF h1 h2 h3, of "scripted stuck_off True" w0] h1 h2 h3
    by (simp add: release_def call_dispose_resources_def scripted_def session_def w0_def)
qed

text \<open>
  C4, as amended. For each of the bodies of \<^verbatim>\<open>status\<close>, \<^verbatim>\<open>on\<close>, \<^verbatim>\<open>off\<close>,
  \<^verbatim>\<open>toggle\<close> and \<^verbatim>\<open>_get_serial\<close> under the decorator, with any argument, from any world
  and with any release, be it one that returns, one that raises \<^verbatim>\<open>USBError\<close> or one that
  raises another exception: the body releases nothing; when \<^verbatim>\<open>autodispose\<close> is set the
  release is called exactly once, after the body, on the hardware state the body left,
  and the run ends in the state the release left; a release that returns or raises
  \<^verbatim>\<open>USBError\<close> leaves the body's result or exception as it is, and any other exception
  of the release takes its place; when the flag is cleared the run is the body's run, so
  nothing is released (\<open>lifecycle\<close>). Each of the five operations is its body under the
  decorator with the release of the library, which returns or raises \<^verbatim>\<open>USBError\<close>: it
  gives exactly what its body gives and, with the flag set, leaves the world of its body
  after one call of \<^verbatim>\<open>dispose_resources\<close> (\<open>decorated\<close>). \<^verbatim>\<open>dispose()\<close> calls the release
  once, returns when it returns and raises when it raises.
\<close>

theorem release_once_per_call:
  "lifecycle rel self (status_body usb self num) w
   \<and> lifecycle rel self (on_body usb self num) w
   \<and> lifecycle rel self (off_body usb self num) w
   \<and> lifecycle rel self (toggle_body usb self num) w
   \<and> lifecycle rel self (u_get_serial_body usb) w
   \<and> decorated usb self (status_body usb self num) (status usb self num) w
   \<and> decorated usb self (on_body usb self num) (on usb self num) w
   \<and> decorated usb self (off_body usb self num) (off usb self num) w
   \<and> decorated usb self (toggle_body usb self num) (toggle usb self num) w
   \<and> decorated usb self (u_get_serial_body usb) (u_get_serial usb self) w
   \<and> dispose usb w
        = (if fst (dispose_resources usb (hw w)) then Inr () else Inl USBError,
           \<lparr>hw = snd (dispose_resources usb (hw w)),
              calls = calls w @ [DisposeResources (fst (dispose_resources usb (hw w)))]\<rparr>)"
proof -
  have b: "lifecycle rel self (status_body usb self num) w"
    "lifecycle rel self (on_body usb self num) w"
    "lifecycle rel self (off_body usb self num) w"
    "lifecycle rel self (toggle_body usb self num) w"
    "lifecycle rel self (u_get_serial_body usb) w"
    by (rule lifecycle_autodispose_any, rule emits_status_body)
      (rule lifecycle_autodispose_any, rule emits_on_body,
       rule lifecycle_autodispose_any, rule emits_off_body,
       rule lifecycle_autodispose_any, rule emits_toggle_body,
       rule lifecycle_autodispose_any, rule emits_u_get_serial_body)
  have d: "decorated usb self (status_body usb self num) (status usb self num) w"
    "decorated usb self (on_body usb self num) (on usb self num) w"
    "decorated usb self (off_body usb self num) (off usb self num) w"
    "decorated usb self (toggle_body usb self num) (toggle usb self num) w"
    "decorated usb self (u_get_serial_body usb) (u_get_serial usb self) w"
    unfolding status_def on_def off_def toggle_def u_get_serial_def
    by (rule decorated_autodispose_dec)+
  show ?thesis
    using b d dispose_eq [of usb w] by blast
qed

text \<open>
  A release that raises \<^verbatim>\<open>USBError\<close> after a successful read and after a failed one, and
  one that marks the hardware state: the results are kept and the mark is there. A
  cleared flag. An explicit \<^verbatim>\<open>dispose()\<close>.
\<close>

theorem release_once_per_call_witness:
  "status (scripted stuck_off False) (session SISPM True) (PInt 1) w0
     = (Inr (Scalar False),
        \<lparr>hw = 1, calls = [CtrlTransfer (read_request 1) (stuck_off 0), DisposeResources False]\<rparr>)
   \<and> on (scripted always_fails False) (session SISPM True) (PInt 1) w0
     = (Inl USBError, \<lparr>hw = 5, calls = attempt_log (read_request 1) 5 None @ [DisposeResources False]\<rparr>)
   \<and> autodispose_any (marking_release (Some USBError)) (session SISPM True)
        (status_body (scripted stuck_off True) (session SISPM True) (PInt 1)) w0
     = (Inr (Scalar False),
        \<lparr>hw = 101, calls = [CtrlTransfer (read_request 1) (stuck_off 0), DisposeResources False]\<rparr>)
   \<and> off (scripted stuck_off True) (session SISPM False) (PInt 7) w0
     = (Inl (OutletException (PInt 7)), w0)
   \<and> dispose (scripted stuck_off True) w0 = (Inr (), \<lparr>hw = 0, calls = [DisposeResources True]\<rparr>)"
proof -
  have b: "status_body (scripted stuck_off True) (session SISPM True) (PInt 1) w0
     = (Inr (Scalar False), \<lparr>hw = 1, calls = [CtrlTransfer (read_request 1) (stuck_off 0)]\<rparr>)"
    by (simp add: run_defs stuck_off_def eval_nat_numeral)
  have s: "autodispose (session SISPM True)" by (simp add: session_def)
  have m: "autodispose_any (marking_release (Some USBError)) (session SISPM True)
        (status_body (scripted stuck_off True) (session SISPM True) (PInt 1)) w0
     = (Inr (Scalar False),
        \<lparr>hw = 101, calls = [CtrlTransfer (read_request 1) (stuck_off 0), DisposeResources False]\<rparr>)"
    using release_once_per_call [of "marking_release (Some USBError)" "session SISPM True"
        "scripted stuck_off True" "PInt 1" w0] b s
    by (simp add: lifecycle_def marking_release_def prod_eq_iff)
  show ?thesis
    using m
    by (simp add: run_defs stuck_off_def always_fails_def attempt_log_def dispose_def eval_nat_numeral)
qed

text \<open>
  C4 as it was stated fails for a release that raises an exception other than
  \<^verbatim>\<open>USBError\<close>: \<^verbatim>\<open>status(1)\<close> has read \<open>False\<close> from the device and \<^verbatim>\<open>status(5)\<close> has
  raised \<^verbatim>\<open>OutletException\<close>, the release raises \<^verbatim>\<open>TypeError\<close>, and \<^verbatim>\<open>TypeError\<close> is what
  the decorated call raises in both cases.
\<close>

theorem release_once_per_call_counterexample:
  "status_body (scripted stuck_off True) (session SISPM True) (PInt 1) w0
     = (Inr (Scalar False), \<lparr>hw = 1, calls = [CtrlTransfer (read_request 1) (stuck_off 0)]\<rparr>)
   \<and> autodispose_any (marking_release (Some TypeError)) (session SISPM True)
        (status_body (scripted stuck_off True) (session SISPM True) (PInt 1)) w0
     = (Inl TypeError,
        \<lparr>hw = 101, calls = [CtrlTransfer (read_request 1) (stuck_off 0), DisposeResources False]\<rparr>)
   \<and> status_body (scripted stuck_off True) (session SISPM True) (PInt 5) w0
     = (Inl (OutletException (PInt 5)), w0)
   \<and> autodispose_any (marking_release (Some TypeError)) (session SISPM True)
        (status_body (scripted stuck_off True) (session SISPM True) (PInt 5)) w0
     = (Inl TypeError, \<lparr>hw = 100, calls = [DisposeResources False]\<rparr>)"
  by (simp add: run_defs autodispose_any_def call_release_def marking_release_def stuck_off_def
      eval_nat_numeral)

text \<open>
  C5. Let \<open>n\<close> be an outlet of the device and let the status read that \<^verbatim>\<open>toggle(n)\<close>
  starts with return \<open>st\<close> and leave the world \<open>w1\<close>. Then \<^verbatim>\<open>toggle(n)\<close> is the run of
  \<^verbatim>\<open>_off(n)\<close>, if \<open>st\<close> is true, and of \<^verbatim>\<open>_on(n)\<close> otherwise, from \<open>w1\<close>, followed by the
  release of the decorator: the log is that of the first read, then all that the branch
  adds. The branch starts with a status read of its own: its log extends the log of a
  status read made from \<open>w1\<close>.
\<close>

theorem toggle_reads_then_branches:
  assumes o: "outlets self = Inr outs" and n: "n \<in> set outs"
    and s: "u_status usb (PInt n) w = (Inr st, w1)"
  shows "toggle usb self (PInt n) w
           = (map_sum (\<lambda>e. e) Scalar (fst ((if st then u_off usb (PInt n) else u_on usb (PInt n)) w1)),
              release usb self (snd ((if st then u_off usb (PInt n) else u_on usb (PInt n)) w1)))
       \<and> (\<exists>es. calls (snd ((if st then u_off usb (PInt n) else u_on usb (PInt n)) w1))
                 = calls (snd (u_status usb (PInt n) w1)) @ es)"
proof -
  let ?b = "(if st then u_off usb (PInt n) else u_on usb (PInt n)) w1"
  have "toggle_body usb self (PInt n) w = (map_sum (\<lambda>e. e) Scalar (fst ?b), snd ?b)"
    using s
    by (cases ?b; cases "fst ?b")
      (auto simp: toggle_body_def dispatch_valid [OF o n] toggle_expr_def bind_def ret_def)
  then have 1: "toggle usb self (PInt n) w
           = (map_sum (\<lambda>e. e) Scalar (fst ?b), release usb self (snd ?b))"
    by (simp add: toggle_def autodispose_dec_def)
  have ext: "\<exists>es. calls (snd (bind m f w1)) = calls (snd (m w1)) @ es"
    if "\<And>x. emits io_event (f x)" for m :: "('a, bool) action" and f :: "bool \<Rightarrow> ('a, bool) action"
  proof (cases "m w1")
    case (Pair r w2)
    show ?thesis
    proof (cases r)
      case (Inl e)
      then show ?thesis using Pair by (simp add: bind_def)
    next
      case (Inr x)
      from that [of x] obtain es where "calls (snd (f x w2)) = calls w2 @ es"
        unfolding emits_def by blast
      then show ?thesis using Pair Inr by (simp add: bind_def)
    qed
  qed
  have "\<exists>es. calls (snd (u_on usb (PInt n) w1)) = calls (snd (u_status usb (PInt n) w1)) @ es"
    unfolding u_on_def
    by (rule ext) (intro emits_bind emits_if emits_lift emits_ret emits_u_usb_command
      emits_mono [OF emits_u_status read_event_io]; simp add: io_event_def)
  moreover
  have "\<exists>es. calls (snd (u_off usb (PInt n) w1)) = calls (snd (u_status usb (PInt n) w1)) @ es"
    unfolding u_off_def
    by (rule ext) (intro emits_bind emits_if emits_lift emits_ret emits_u_usb_command
      emits_mono [OF emits_u_status read_event_io]; simp add: io_event_def)
  ultimately show ?thesis using 1 by simp
qed

text \<open>An outlet that is on: the read of \<^verbatim>\<open>toggle\<close>, the read of \<^verbatim>\<open>_off\<close>, the write, the
  read that confirms, the release.\<close>

theorem toggle_reads_then_branches_witness:
  "outlets (session SISPM True) = Inr [1, 2, 3, 4] \<and> (1::int) \<in> set [1, 2, 3, 4]
   \<and> u_status (scripted turns_off True) (PInt 1) w0
       = (Inr True, \<lparr>hw = 1, calls = [CtrlTransfer (read_request 1) (turns_off 0)]\<rparr>)
   \<and> toggle (scripted turns_off True) (session SISPM True) (PInt 1) w0
       = (Inr (Scalar True),
          \<lparr>hw = 4, calls = [CtrlTransfer (read_request 1) (turns_off 0),
                             CtrlTransfer (read_request 1) (turns_off 1),
                             CtrlTransfer (write_request 1 False) (turns_off 2),
                             CtrlTransfer (read_request 1) (turns_off 3),
                             DisposeResources True]\<rparr>)"
proof -
  have h1: "outlets (session SISPM True) = Inr [1, 2, 3, 4]"
    by (simp add: run_defs)
  have h2: "(1::int) \<in> set [1, 2, 3, 4]" by simp
  have h3: "u_status (scripted turns_off True) (PInt 1) w0
       = (Inr True, \<lparr>hw = 1, calls = [CtrlTransfer (read_request 1) (turns_off 0)]\<rparr>)"
    by (simp add: run_defs turns_off_def eval_nat_numeral)
  have b: "u_off (scripted turns_off True) (PInt 1)
             \<lparr>hw = 1, calls = [CtrlTransfer (read_request 1) (turns_off 0)]\<rparr>
       = (Inr True,
          \<lparr>hw = 4, calls = [CtrlTransfer (read_request 1) (turns_off 0),
                             CtrlTransfer (read_request 1) (turns_off 1),
                             CtrlTransfer (write_request 1 False) (turns_off 2),
                             CtrlTransfer (read_request 1) (turns_off 3)]\<rparr>)"
    by (simp add: run_defs turns_off_def eval_nat_numeral)
  show ?thesis
    using toggle_reads_then_branches [OF h1 h2 h3] h1 h2 h3 b
    by (simp add: release_def call_dispose_resources_def scripted_def session_def)
qed

text \<open>
  C6. On a device of a known type with the outlet tuple \<open>outs\<close>, take one of \<^verbatim>\<open>status\<close>,
  \<^verbatim>\<open>on\<close>, \<^verbatim>\<open>off\<close>, \<^verbatim>\<open>toggle\<close> and run its single-outlet operation once for each
  element of \<open>outs\<close>, from first to last, each run from the world the run before left
  (\<open>run_each\<close>). If no run raises an exception, then the operation called with \<^verbatim>\<open>'all'\<close>
  returns the dictionary that has, in the order of \<open>outs\<close>, exactly the outlets of \<open>outs\<close>
  as keys and at each outlet the value its run returned, and it leaves the world of the
  last run (but for the release). A run that returns \<open>False\<close> is no exception: the runs
  after it are made.
\<close>

theorem all_outlets_in_order:
  assumes o: "outlets self = Inr outs"
  shows
    "(\<forall>d. all_values (fst (run_each (\<lambda>i. u_status usb (PInt i)) outs w)) = Some d \<longrightarrow>
        status usb self (PStr ''all'') w
          = (Inr (Dict d), release usb self (snd (run_each (\<lambda>i. u_status usb (PInt i)) outs w)))
        \<and> map fst d = outs)
   \<and> (\<forall>d. all_values (fst (run_each (\<lambda>i. u_on usb (PInt i)) outs w)) = Some d \<longrightarrow>
        on usb self (PStr ''all'') w
          = (Inr (Dict d), release usb self (snd (run_each (\<lambda>i. u_on usb (PInt i)) outs w)))
        \<and> map fst d = outs)
   \<and> (\<forall>d. all_values (fst (run_each (\<lambda>i. u_off usb (PInt i)) outs w)) = Some d \<longrightarrow>
        off usb self (PStr ''all'') w
          = (Inr (Dict d), release usb self (snd (run_each (\<lambda>i. u_off usb (PInt i)) outs w)))
        \<and> map fst d = outs)
   \<and> (\<forall>d. all_values (fst (run_each (\<lambda>i. toggle_expr usb (PInt i)) outs w)) = Some d \<longrightarrow>
        toggle usb self (PStr ''all'') w
          = (Inr (Dict d), release usb self (snd (run_each (\<lambda>i. toggle_expr usb (PInt i)) outs w)))
        \<and> map fst d = outs)"
  unfolding status_def on_def off_def toggle_def status_body_def on_body_def off_body_def
    toggle_body_def
  using decorated_all [OF o, of "u_status usb" w _ usb] decorated_all [OF o, of "u_on usb" w _ usb]
    decorated_all [OF o, of "u_off usb" w _ usb] decorated_all [OF o, of "toggle_expr usb" w _ usb]
  by blast

text \<open>Four outlets that stay off: \<^verbatim>\<open>on('all')\<close> returns \<open>False\<close> at each of the four keys
  after twelve transfers, three for each outlet.\<close>

theorem all_outlets_in_order_witness:
  "outlets (session SISPM True) = Inr [1, 2, 3, 4]
   \<and> fst (on (scripted stuck_off True) (session SISPM True) (PStr ''all'') w0)
       = Inr (Dict [(1, False), (2, False), (3, False), (4, False)])
   \<and> hw (snd (on (scripted stuck_off True) (session SISPM True) (PStr ''all'') w0)) = 12"
proof -
  have h1: "outlets (session SISPM True) = Inr [1, 2, 3, 4]"
    by (simp add: run_defs)
  have r: "fst (run_each (\<lambda>i. u_on (scripted stuck_off True) (PInt i)) [1, 2, 3, 4] w0)
             = [(1, Inr False), (2, Inr False), (3, Inr False), (4, Inr False)]"
    "hw (snd (run_each (\<lambda>i. u_on (scripted stuck_off True) (PInt i)) [1, 2, 3, 4] w0)) = 12"
    by (simp_all add: run_defs stuck_off_def eval_nat_numeral)
  have a: "all_values (fst (run_each (\<lambda>i. u_on (scripted stuck_off True) (PInt i)) [1, 2, 3, 4] w0))
             = Some [(1, False), (2, False), (3, False), (4, False)]"
    unfolding r(1) by simp
  from all_outlets_in_order [OF h1, of "scripted stuck_off True" w0] a
  have "on (scripted stuck_off True) (session SISPM True) (PStr ''all'') w0
          = (Inr (Dict [(1, False), (2, False), (3, False), (4, False)]),
             release (scripted stuck_off True) (session SISPM True)
               (snd (run_each (\<lambda>i. u_on (scripted stuck_off True) (PInt i)) [1, 2, 3, 4] w0)))"
    by blast
  then show ?thesis using h1 r(2)
    by (simp add: release_def call_dispose_resources_def scripted_def session_def)
qed

text \<open>
  C7. When the serial read returns the bytes \<open>bs\<close>, the accessor \<^verbatim>\<open>serial\<close> returns the
  renderings of the bytes, each as exactly two lowercase hexadecimal digits with a leading
  zero where needed (\<open>two_hex\<close>), joined by colons. This holds for any number of bytes, six
  in particular.
\<close>

theorem serial_format:
  assumes "u_get_serial usb self w = (Inr (Data bs), w1)"
  shows "serial usb self w = (Inr (join '':'' (map two_hex bs)), w1)"
  using assms by (simp add: serial_def bind_def ret_def byte_as_hex)

text \<open>The bytes 1A 02 FF 00 0B 9C give \<^verbatim>\<open>1a:02:ff:00:0b:9c\<close>.\<close>

theorem serial_format_witness:
  "u_get_serial (scripted serial_bytes True) (session SISPM False) w0
     = (Inr (Data [0x1A, 0x02, 0xFF, 0x00, 0x0B, 0x9C]),
        \<lparr>hw = 1, calls = [CtrlTransfer \<lparr>bmRequestType = 0xa1, bRequest = 1, wValue = 769, wIndex = 0,
             data_or_wLength = [0, 0, 0, 0, 0, 0], timeout = 500\<rparr> (serial_bytes 0)]\<rparr>)
   \<and> fst (serial (scripted serial_bytes True) (session SISPM False) w0) = Inr ''1a:02:ff:00:0b:9c''"
proof -
  have h: "u_get_serial (scripted serial_bytes True) (session SISPM False) w0
     = (Inr (Data [0x1A, 0x02, 0xFF, 0x00, 0x0B, 0x9C]),
        \<lparr>hw = 1, calls = [CtrlTransfer \<lparr>bmRequestType = 0xa1, bRequest = 1, wValue = 769, wIndex = 0,
             data_or_wLength = [0, 0, 0, 0, 0, 0], timeout = 500\<rparr> (serial_bytes 0)]\<rparr>)"
    by (simp add: run_defs serial_bytes_def eval_nat_numeral)
  show ?thesis
    using serial_format [OF h] h
    by (simp add: two_hex_def hexdigit_def)
qed

text \<open>
  C8. Suppose that on every device of the bus that the enumeration yields (vendor and
  product accepted) a session can be constructed and its serial read. Then
  \<^verbatim>\<open>get_device_by_serial\<close> returns the session of the first such device, in the order
  of the bus, whose serial is equal to the string asked for, and returns \<^verbatim>\<open>None\<close>, not
  an exception, when no such device has that serial.
\<close>

theorem find_by_serial:
  assumes "\<forall>dw \<in> set devs. enumerated products (fst dw) \<longrightarrow> (\<exists>s. serial_of usb dw = Inr s)"
  shows "fst (get_device_by_serial usb ser products devs)
           = Inr (map_option (\<lambda>dw. \<lparr>device = fst dw, autodispose = True\<rparr>)
                   (List.find (\<lambda>dw. enumerated products (fst dw) \<and> serial_of usb dw = Inr ser) devs))
       \<and> ((\<forall>dw \<in> set devs. enumerated products (fst dw) \<longrightarrow> serial_of usb dw \<noteq> Inr ser)
            \<longrightarrow> fst (get_device_by_serial usb ser products devs) = Inr None)"
proof -
  have "List.find (\<lambda>dw. enumerated products (fst dw) \<and> serial_of usb dw = Inr ser) devs = None"
    if "\<forall>dw \<in> set devs. enumerated products (fst dw) \<longrightarrow> serial_of usb dw \<noteq> Inr ser"
    using that by (simp add: find_None_iff)
  then show ?thesis
    using get_device_by_serial_find [OF assms, of ser] by auto
qed

text \<open>A foreign product, a device with another serial, and two devices with the serial
  asked for: the first of the two is returned. A serial that no device has: \<^verbatim>\<open>None\<close>.\<close>

theorem find_by_serial_witness:
  "serial_of (scripted two_serials True) (usb_bus ! 1) = Inr ''00:00:00:00:00:01''
   \<and> serial_of (scripted two_serials True) (usb_bus ! 2) = Inr ''1a:02:ff:00:0b:9c''
   \<and> serial_of (scripted two_serials True) (usb_bus ! 3) = Inr ''1a:02:ff:00:0b:9c''
   \<and> fst (get_device_by_serial (scripted two_serials True) ''1a:02:ff:00:0b:9c'' default_products usb_bus)
       = Inr (Some (session MSISPM_OLD True))
   \<and> fst (get_device_by_serial (scripted two_serials True) ''00:00:00:00:00:00'' default_products usb_bus)
       = Inr None"
proof -
  have i: "init_OutletDevice (scripted two_serials True) (dev p) \<lparr>hw = k, calls = []\<rparr>
             = (Inr (session p True), \<lparr>hw = k, calls = [SetConfiguration True]\<rparr>)" for p k
    by (simp add: init_OutletDevice_def call_set_configuration_def scripted_def session_def)
  have g: "fst (u_get_serial (scripted two_serials True) (session p True)
                 \<lparr>hw = k, calls = [SetConfiguration True]\<rparr>) = Inr (the (two_serials k))" for p k
    by (simp add: run_defs two_serials_def eval_nat_numeral)
  have sr: "fst (serial (scripted two_serials True) (session p True)
                 \<lparr>hw = k, calls = [SetConfiguration True]\<rparr>)
              = Inr (join '':'' (map two_hex (case the (two_serials k) of Data bs \<Rightarrow> bs | Written n \<Rightarrow> [])))" for p k
    using g [of p k]
    by (cases "u_get_serial (scripted two_serials True) (session p True) \<lparr>hw = k, calls = [SetConfiguration True]\<rparr>")
      (simp add: serial_def bind_def ret_def byte_as_hex two_serials_def)
  have s1: "serial_of (scripted two_serials True) (dev p, w0) = Inr ''00:00:00:00:00:01''" for p
    by (simp add: serial_of_def w0_def i sr) (simp add: two_serials_def two_hex_def hexdigit_def)
  have s2: "serial_of (scripted two_serials True) (dev p, \<lparr>hw = 10, calls = []\<rparr>) = Inr ''1a:02:ff:00:0b:9c''" for p
    by (simp add: serial_of_def i sr) (simp add: two_serials_def two_hex_def hexdigit_def)
  have h: "\<forall>dw \<in> set usb_bus. enumerated default_products (fst dw)
       \<longrightarrow> (\<exists>s. serial_of (scripted two_serials True) dw = Inr s)"
    by (simp add: usb_bus_def s1 s2)
  have e: "\<not> enumerated default_products (dev 0x1234)" "enumerated default_products (dev SISPM)"
    "enumerated default_products (dev MSISPM_OLD)"
    by (simp_all add: enumerated_def default_products_def dev_def VENDOR_def MSISPM_OLD_def SISPM_def
      MSISPM_FLASH_def MSISPM_FLASH_NEW_def)
  show ?thesis
    using find_by_serial [OF h, of "''1a:02:ff:00:0b:9c''"] find_by_serial [OF h, of "''00:00:00:00:00:00''"]
    by (simp add: usb_bus_def s1 s2 e session_def)
qed

text \<open>
  C9, as amended. Let the product ID of the session's device be none of the four keys of
  \<^verbatim>\<open>DEVICE_TYPES\<close>. Then \<^verbatim>\<open>status\<close>, \<^verbatim>\<open>on\<close>, \<^verbatim>\<open>off\<close> and \<^verbatim>\<open>toggle\<close>, with any
  argument, raise the \<^verbatim>\<open>KeyError\<close> of the table access before any validation of the
  argument and with no transfer (only the release of the decorator follows), so
  \<^verbatim>\<open>OutletException\<close> cannot arise; \<^verbatim>\<open>outlets\<close> raises the same \<^verbatim>\<open>KeyError\<close>. The
  accessor \<^verbatim>\<open>info\<close> reads the serial from the device first: it raises the \<^verbatim>\<open>KeyError\<close>
  when that read has succeeded, in the world the read left, and the exception of the read
  otherwise.
\<close>

theorem unknown_product:
  assumes k: "idProduct (device self) \<notin> set default_products"
  shows "status usb self v w = (Inl (KeyError (idProduct (device self))), release usb self w)
       \<and> on usb self v w = (Inl (KeyError (idProduct (device self))), release usb self w)
       \<and> off usb self v w = (Inl (KeyError (idProduct (device self))), release usb self w)
       \<and> toggle usb self v w = (Inl (KeyError (idProduct (device self))), release usb self w)
       \<and> filter is_transfer (calls (release usb self w)) = filter is_transfer (calls w)
       \<and> outlets self = Inl (KeyError (idProduct (device self)))
       \<and> info usb self w
            = (case serial usb self w of
                 (Inl e, w1) \<Rightarrow> (Inl e, w1)
               | (Inr s, w1) \<Rightarrow> (Inl (KeyError (idProduct (device self))), w1))"
proof -
  have u: "DEVICE_TYPES (idProduct (device self)) = None"
    using k by (simp add: DEVICE_TYPES_None_iff)
  have t: "filter is_transfer (calls (release usb self w)) = filter is_transfer (calls w)"
    by (simp add: calls_release is_transfer_def)
  have i: "info usb self w
            = (case serial usb self w of
                 (Inl e, w1) \<Rightarrow> (Inl e, w1)
               | (Inr s, w1) \<Rightarrow> (Inl (KeyError (idProduct (device self))), w1))"
    using u by (simp add: info_def bind_def lift_def split: prod.splits sum.splits)
  show ?thesis
    using t i u
    by (simp add: status_def on_def off_def toggle_def status_body_def on_body_def off_body_def
        toggle_body_def autodispose_dec_def outlets_def dispatch_unknown [OF u])
qed

text \<open>The product 0x1234.\<close>

theorem unknown_product_witness:
  "idProduct (device (session 0x1234 True)) \<notin> set default_products
   \<and> toggle (scripted serial_bytes True) (session 0x1234 True) (PInt 1) w0
       = (Inl (KeyError 0x1234), \<lparr>hw = 0, calls = [DisposeResources True]\<rparr>)
   \<and> fst (info (scripted serial_bytes True) (session 0x1234 True) w0) = Inl (KeyError 0x1234)"
proof -
  have h: "idProduct (device (session 0x1234 True)) \<notin> set default_products"
    by (simp add: run_defs default_products_def)
  have g: "u_get_serial (scripted serial_bytes True) (session 0x1234 True) w0
       = (Inr (Data [0x1A, 0x02, 0xFF, 0x00, 0x0B, 0x9C]),
          \<lparr>hw = 1, calls = [CtrlTransfer serial_request (serial_bytes 0), DisposeResources True]\<rparr>)"
    by (simp add: run_defs serial_bytes_def serial_request_def eval_nat_numeral)
  have s: "serial (scripted serial_bytes True) (session 0x1234 True) w0
       = (Inr ''1a:02:ff:00:0b:9c'',
          \<lparr>hw = 1, calls = [CtrlTransfer serial_request (serial_bytes 0), DisposeResources True]\<rparr>)"
    by (simp add: serial_def bind_def ret_def g byte_as_hex two_hex_def hexdigit_def)
  show ?thesis
    using unknown_product [OF h, of "scripted serial_bytes True" "PInt 1" w0] h s
    by (simp add: release_def call_dispose_resources_def scripted_def session_def w0_def dev_def)
qed

text \<open>
  C9 as it was stated fails for \<^verbatim>\<open>info\<close>: on the product 0x1234 the transfer that reads
  the serial is made, and the device released, before the \<^verbatim>\<open>KeyError\<close>; and on a bus where
  every transfer fails \<^verbatim>\<open>info\<close> raises \<^verbatim>\<open>USBError\<close>, not \<^verbatim>\<open>KeyError\<close>.
\<close>

theorem unknown_product_counterexample:
  "idProduct (device (session 0x1234 True)) \<notin> set default_products
   \<and> info (scripted serial_bytes True) (session 0x1234 True) w0
       = (Inl (KeyError 0x1234),
          \<lparr>hw = 1, calls = [CtrlTransfer serial_request (serial_bytes 0), DisposeResources True]\<rparr>)
   \<and> fst (info (scripted always_fails True) (session 0x1234 True) w0) = Inl USBError"
  by (simp add: info_def serial_def run_defs serial_bytes_def always_fails_def serial_request_def
      default_products_def eval_nat_numeral)

text \<open>
  C10, as amended. On a device of a known type the values \<^verbatim>\<open>True\<close> and \<^verbatim>\<open>1.0\<close> pass
  \<^verbatim>\<open>num in self.outlets\<close>, which compares by value. With \<^verbatim>\<open>True\<close> each of \<^verbatim>\<open>status\<close>,
  \<^verbatim>\<open>on\<close>, \<^verbatim>\<open>off\<close> and \<^verbatim>\<open>toggle\<close> does what it does with outlet 1. With \<^verbatim>\<open>1.0\<close> none
  of them raises \<^verbatim>\<open>OutletException\<close>, but none performs the operation of outlet 1 either:
  \<^verbatim>\<open>num * 3\<close> is a float, storing it into the bytearray raises \<^verbatim>\<open>TypeError\<close>, and no
  transfer is made.
\<close>

theorem value_equality:
  assumes o: "outlets self = Inr outs"
  shows "py_in (PBool True) outs \<and> py_in (PFloat 1) outs
       \<and> status usb self (PBool True) w = status usb self (PInt 1) w
       \<and> on usb self (PBool True) w = on usb self (PInt 1) w
       \<and> off usb self (PBool True) w = off usb self (PInt 1) w
       \<and> toggle usb self (PBool True) w = toggle usb self (PInt 1) w
       \<and> status usb self (PFloat 1) w = (Inl TypeError, release usb self w)
       \<and> on usb self (PFloat 1) w = (Inl TypeError, release usb self w)
       \<and> off usb self (PFloat 1) w = (Inl TypeError, release usb self w)
       \<and> toggle usb self (PFloat 1) w = (Inl TypeError, release usb self w)
       \<and> filter is_transfer (calls (release usb self w)) = filter is_transfer (calls w)"
proof -
  have t: "filter is_transfer (calls (release usb self w)) = filter is_transfer (calls w)"
    by (simp add: calls_release is_transfer_def)
  show ?thesis
    using t one_is_outlet [OF o]
    by (simp add: status_def on_def off_def toggle_def status_body_def on_body_def off_body_def
        toggle_body_def autodispose_dec_def py_in_True py_in_float_one
        dispatch_True [OF o] dispatch_float_one [OF o]
        u_status_True u_on_True u_off_True toggle_expr_True
        u_status_float u_on_float u_off_float toggle_expr_float raise_def)
qed

text \<open>A one-outlet device with the flag cleared.\<close>

theorem value_equality_witness:
  "outlets (session MSISPM_OLD False) = Inr [1]
   \<and> on (scripted stuck_off True) (session MSISPM_OLD False) (PBool True) w0
       = on (scripted stuck_off True) (session MSISPM_OLD False) (PInt 1) w0
   \<and> on (scripted stuck_off True) (session MSISPM_OLD False) (PFloat 1) w0 = (Inl TypeError, w0)"
proof -
  have h: "outlets (session MSISPM_OLD False) = Inr [1]"
    by (simp add: run_defs)
  show ?thesis
    using value_equality [OF h, of "scripted stuck_off True" w0] h
    by (simp add: release_def session_def)
qed

text \<open>
  C10 as it was stated fails for \<^verbatim>\<open>1.0\<close>: \<^verbatim>\<open>status(1)\<close> makes the read transfer of outlet
  1 and returns its value, \<^verbatim>\<open>status(1.0)\<close> makes no transfer and raises \<^verbatim>\<open>TypeError\<close>.
\<close>

theorem value_equality_counterexample:
  "outlets (session SISPM True) = Inr [1, 2, 3, 4] \<and> py_in (PFloat 1) [1, 2, 3, 4]
   \<and> status (scripted stuck_off True) (session SISPM True) (PInt 1) w0
       = (Inr (Scalar False),
          \<lparr>hw = 1, calls = [CtrlTransfer (read_request 1) (stuck_off 0), DisposeResources True]\<rparr>)
   \<and> status (scripted stuck_off True) (session SISPM True) (PFloat 1) w0
       = (Inl TypeError, \<lparr>hw = 0, calls = [DisposeResources True]\<rparr>)"
  by (simp add: run_defs stuck_off_def eval_nat_numeral)

end
